theory Spec2Isabelle
  imports Complex_Main "HOL-Library.Word"
begin

section \<open>The JavaScript values the caption route works on\<close>

text \<open>
  The development embeds the request handler of \<^verbatim>\<open>src/app/api/captions/route.ts\<close>
  (the second document of \<^verbatim>\<open>src/src/app/page.tsx\<close>): the provider gateway
  \<^verbatim>\<open>callOpenAI\<close>, the two payload parsers, the two fallback catalogues and the
  handler \<^verbatim>\<open>POST\<close>.

  A JavaScript string is a sequence of UTF-16 code units, and \<^verbatim>\<open>length\<close> counts
  code units; so a string is a list of 16-bit words. \<open>str\<close> embeds an ASCII literal.
\<close>

type_synonym code_unit = "16 word"
type_synonym jsstring = "code_unit list"

definition str :: "string \<Rightarrow> jsstring" where
  "str s = map of_char s"

text \<open>
  \<^verbatim>\<open>String.prototype.trim\<close> removes WhiteSpace and LineTerminator code points from
  both ends: TAB, LF, VT, FF, CR, SP, NBSP, U+1680, U+2000..U+200A, LS, PS, U+202F,
  U+205F, U+3000 and the byte order mark.
\<close>

definition is_white_space :: "code_unit \<Rightarrow> bool" where
  "is_white_space c \<longleftrightarrow>
     c = 0x9 \<or> c = 0xA \<or> c = 0xB \<or> c = 0xC \<or> c = 0xD \<or> c = 0x20 \<or> c = 0xA0 \<or>
     c = 0x1680 \<or> (0x2000 \<le> c \<and> c \<le> 0x200A) \<or> c = 0x2028 \<or> c = 0x2029 \<or>
     c = 0x202F \<or> c = 0x205F \<or> c = 0x3000 \<or> c = 0xFEFF"

definition trim :: "jsstring \<Rightarrow> jsstring" where
  "trim s = rev (dropWhile is_white_space (rev (dropWhile is_white_space s)))"

text \<open>
  \<^verbatim>\<open>toLowerCase\<close> and \<^verbatim>\<open>toUpperCase\<close> are modelled on the ASCII letters. The
  handler only compares the lower-cased tone with the four ASCII tone names and with the
  empty string, and the only code point outside ASCII whose Unicode lower-case mapping
  consists of ASCII letters alone is the Kelvin sign (to \<open>k\<close>, a letter no tone name
  has); so the comparison has the same result under the full Unicode mapping. The
  upper-case mapping is applied to the first letter of an accepted tone only.
\<close>

definition toLowerCase :: "jsstring \<Rightarrow> jsstring" where
  "toLowerCase s = map (\<lambda>c. if 0x41 \<le> c \<and> c \<le> 0x5A then c + 0x20 else c) s"

definition toUpperCase :: "jsstring \<Rightarrow> jsstring" where
  "toUpperCase s = map (\<lambda>c. if 0x61 \<le> c \<and> c \<le> 0x7A then c - 0x20 else c) s"

definition join :: "jsstring \<Rightarrow> jsstring list \<Rightarrow> jsstring" where
  "join sep xs = (case xs of [] \<Rightarrow> [] | y # ys \<Rightarrow> y @ concat (map (\<lambda>z. sep @ z) ys))"

subsection \<open>Numbers\<close>

text \<open>
  A JavaScript number is an IEEE 754 binary64 value: \<open>NaN\<close>, an infinity or
  \<open>Fin x\<close> with \<open>x\<close> the exact value of a finite double (the two zeros are
  identified: the handler cannot tell them apart). \<open>round_double\<close> is rounding to
  the nearest double, ties to even, with overflow to infinity and gradual underflow.
\<close>

datatype jsnum = NaN | PosInf | NegInf | Fin real

function bit_length :: "int \<Rightarrow> int" where
  "bit_length n = (if n \<le> 0 then 0 else 1 + bit_length (n div 2))"
  by pat_completeness auto
termination
  by (relation "measure nat") auto

declare bit_length.simps [simp del]

definition binade :: "real \<Rightarrow> int" where
  \<comment> \<open>for \<open>0 < x\<close>: the exponent \<open>e\<close> with \<open>2 powi e \<le> x < 2 powi (e + 1)\<close>\<close>
  "binade x = (if 1 \<le> x then bit_length \<lfloor>x\<rfloor> - 1 else - bit_length (\<lceil>1 / x\<rceil> - 1))"

definition round_half_even :: "real \<Rightarrow> int" where
  "round_half_even q = (let f = \<lfloor>q\<rfloor>; r = q - of_int f in
     if r < 1 / 2 then f else if 1 / 2 < r then f + 1 else if even f then f else f + 1)"

definition round_double :: "real \<Rightarrow> jsnum" where
  "round_double x = (if x = 0 then Fin 0 else
     let a = \<bar>x\<bar>; e = max (binade a) (- 1022); ulp = 2 powi (e - 52);
         r = of_int (round_half_even (a / ulp)) * ulp
     in if 2 powi 1024 \<le> r then (if x < 0 then NegInf else PosInf) else Fin (sgn x * r))"

definition isInteger :: "jsnum \<Rightarrow> bool" where
  \<comment> \<open>\<^verbatim>\<open>Number.isInteger\<close>\<close>
  "isInteger n = (case n of Fin q \<Rightarrow> of_int \<lfloor>q\<rfloor> = q | _ \<Rightarrow> False)"

definition isFinite :: "jsnum \<Rightarrow> bool" where
  \<comment> \<open>\<^verbatim>\<open>Number.isFinite\<close>\<close>
  "isFinite n = (case n of Fin q \<Rightarrow> True | _ \<Rightarrow> False)"

fun js_less :: "jsnum \<Rightarrow> jsnum \<Rightarrow> bool" where
  \<comment> \<open>the operator \<^verbatim>\<open><\<close> on numbers: false as soon as one side is NaN\<close>
  "js_less NaN _ = False"
| "js_less _ NaN = False"
| "js_less (Fin a) (Fin b) = (a < b)"
| "js_less NegInf b = (b \<noteq> NegInf)"
| "js_less a PosInf = (a \<noteq> PosInf)"
| "js_less _ _ = False"

definition js_times :: "jsnum \<Rightarrow> jsnum \<Rightarrow> jsnum" where
  \<comment> \<open>the operator \<^verbatim>\<open>*\<close> on numbers\<close>
  "js_times a b =
     (if a = NaN \<or> b = NaN then NaN
      else (case (a, b) of
              (Fin x, Fin y) \<Rightarrow> round_double (x * y)
            | _ \<Rightarrow> if a = Fin 0 \<or> b = Fin 0 then NaN
                   else if js_less a (Fin 0) = js_less b (Fin 0) then PosInf else NegInf))"

subsection \<open>Numeric strings\<close>

text \<open>
  \<^verbatim>\<open>Number(s)\<close> applies StringToNumber: white space is stripped from both ends, the
  empty string is 0, and the rest must be one StrNumericLiteral: a binary, octal or
  hexadecimal integer literal, or an optionally signed \<^verbatim>\<open>Infinity\<close> or decimal literal
  with optional fraction and exponent. \<^verbatim>\<open>parseFloat(s)\<close> strips leading white space and
  takes the longest prefix that is a signed decimal literal. Both round the exact value
  of the literal to a double.
\<close>

definition is_digit :: "code_unit \<Rightarrow> bool" where
  "is_digit c \<longleftrightarrow> 0x30 \<le> c \<and> c \<le> 0x39"

definition digit_value :: "code_unit \<Rightarrow> int" where
  "digit_value c =
     (if 0x30 \<le> c \<and> c \<le> 0x39 then uint c - 0x30
      else if 0x61 \<le> c \<and> c \<le> 0x66 then uint c - 0x61 + 10
      else uint c - 0x41 + 10)"

definition digits_value :: "int \<Rightarrow> jsstring \<Rightarrow> int" where
  "digits_value radix ds = foldl (\<lambda>n c. radix * n + digit_value c) 0 ds"

definition scan_exponent :: "jsstring \<Rightarrow> int \<times> jsstring" where
  \<comment> \<open>an ExponentPart at the head of the input (value 0 when there is none) and the rest\<close>
  "scan_exponent s = (case s of
       [] \<Rightarrow> (0, s)
     | c # r \<Rightarrow>
         if c = 0x65 \<or> c = 0x45 then
           (let (sg, r1) = (case r of
                   [] \<Rightarrow> (1, r)
                 | d # r' \<Rightarrow> if d = 0x2B then (1, r') else if d = 0x2D then (- 1, r') else (1, r));
                ds = takeWhile is_digit r1
            in if ds = [] then (0, s) else (sg * digits_value 10 ds, dropWhile is_digit r1))
         else (0, s))"

definition scan_decimal :: "jsstring \<Rightarrow> (real \<times> jsstring) option" where
  \<comment> \<open>the longest prefix that is an unsigned decimal literal: its exact value and the rest\<close>
  "scan_decimal s =
     (let ip = takeWhile is_digit s; r1 = dropWhile is_digit s;
          (fp, r2) = (case r1 of
               [] \<Rightarrow> ([], r1)
             | c # r \<Rightarrow> if c = 0x2E then (takeWhile is_digit r, dropWhile is_digit r) else ([], r1))
      in if ip = [] \<and> fp = [] then None
         else (let (ex, r3) = scan_exponent r2
               in Some (of_int (digits_value 10 (ip @ fp)) * 10 powi (ex - int (length fp)), r3)))"

definition scan_signed :: "jsstring \<Rightarrow> (jsnum \<times> jsstring) option" where
  \<comment> \<open>the longest prefix that is a StrDecimalLiteral, as a number, and the rest\<close>
  "scan_signed s =
     (let (neg, u) = (case s of
             [] \<Rightarrow> (False, s)
           | c # r \<Rightarrow> if c = 0x2B then (False, r) else if c = 0x2D then (True, r) else (False, s))
      in if take 8 u = str ''Infinity'' then Some (if neg then NegInf else PosInf, drop 8 u)
         else (case scan_decimal u of
                 None \<Rightarrow> None
               | Some (v, r) \<Rightarrow> Some (round_double (if neg then - v else v), r)))"

definition radix_literal :: "jsstring \<Rightarrow> int option" where
  \<comment> \<open>a NonDecimalIntegerLiteral: \<^verbatim>\<open>0x\<close>, \<^verbatim>\<open>0o\<close> or \<^verbatim>\<open>0b\<close> and at least one digit\<close>
  "radix_literal s = (case s of
       z # x # ds \<Rightarrow>
         if z \<noteq> 0x30 \<or> ds = [] then None
         else if (x = 0x78 \<or> x = 0x58) \<and>
                 list_all (\<lambda>c. is_digit c \<or> (0x61 \<le> c \<and> c \<le> 0x66) \<or> (0x41 \<le> c \<and> c \<le> 0x46)) ds
           then Some (digits_value 16 ds)
         else if (x = 0x6F \<or> x = 0x4F) \<and> list_all (\<lambda>c. 0x30 \<le> c \<and> c \<le> 0x37) ds
           then Some (digits_value 8 ds)
         else if (x = 0x62 \<or> x = 0x42) \<and> list_all (\<lambda>c. c = 0x30 \<or> c = 0x31) ds
           then Some (digits_value 2 ds)
         else None
     | _ \<Rightarrow> None)"

definition Number :: "jsstring \<Rightarrow> jsnum" where
  "Number s = (let t = trim s in
     if t = [] then Fin 0
     else (case radix_literal t of
             Some v \<Rightarrow> round_double (of_int v)
           | None \<Rightarrow> (case scan_signed t of Some (v, []) \<Rightarrow> v | _ \<Rightarrow> NaN)))"

definition parseFloat :: "jsstring \<Rightarrow> jsnum" where
  "parseFloat s = (case scan_signed (dropWhile is_white_space s) of Some (v, r) \<Rightarrow> v | None \<Rightarrow> NaN)"

text \<open>
  Number-to-string conversion is needed for the character cap in the prompt, which is an
  integer between 40 and 220 whenever a prompt is built: the decimal digits of an
  integer. (A finite value with a fraction never reaches the template; its integer part
  is rendered.)
\<close>

function decimal_digits :: "nat \<Rightarrow> jsstring" where
  "decimal_digits n = (if n < 10 then [0x30 + of_nat n] else decimal_digits (n div 10) @ [0x30 + of_nat (n mod 10)])"
  by pat_completeness auto
termination
  by (relation "measure id") auto

declare decimal_digits.simps [simp del]

definition number_toString :: "jsnum \<Rightarrow> jsstring" where
  "number_toString n = (case n of
       NaN \<Rightarrow> str ''NaN''
     | PosInf \<Rightarrow> str ''Infinity''
     | NegInf \<Rightarrow> str ''-Infinity''
     | Fin q \<Rightarrow> (if q < 0 then str ''-'' else []) @ decimal_digits (nat \<bar>\<lfloor>q\<rfloor>\<bar>))"

section \<open>The provider and the gateway\<close>

text \<open>
  An exception value, as far as the handler inspects it: the most specific of the classes
  it tests with \<^verbatim>\<open>instanceof\<close> (\<^verbatim>\<open>OpenAI.RateLimitError\<close> extends
  \<^verbatim>\<open>OpenAI.APIError\<close>, which extends \<^verbatim>\<open>Error\<close>), the \<^verbatim>\<open>status\<close> property, the
  \<^verbatim>\<open>retry-after\<close> header and the message.
\<close>

datatype error_class = RateLimitError | APIError | Error

record js_error =
  error_class :: error_class
  error_status :: "nat option"
  retry_after :: "jsstring option"
  message :: jsstring

definition new_Error :: "string \<Rightarrow> js_error" where
  "new_Error m = \<lparr>error_class = Error, error_status = None, retry_after = None, message = str m\<rparr>"

definition instanceof_RateLimitError :: "js_error \<Rightarrow> bool" where
  "instanceof_RateLimitError e \<longleftrightarrow> error_class e = RateLimitError"

definition instanceof_APIError :: "js_error \<Rightarrow> bool" where
  "instanceof_APIError e \<longleftrightarrow> error_class e = RateLimitError \<or> error_class e = APIError"

text \<open>Chat messages, as the handler builds them.\<close>

datatype role = System | User | Assistant

datatype content_part = Text_part jsstring | Image_url_part jsstring

datatype message_content = Plain jsstring | Multi "content_part list"

record message =
  role :: role
  content :: message_content

text \<open>
  What \<^verbatim>\<open>response.choices[0]?.message?.content\<close> can be after a completed call:
  a falsy value other than a string (undefined, null), a string, an array of parts (each
  a string or an object whose \<^verbatim>\<open>text\<close> is a string or missing), or any other truthy
  value, given by its \<^verbatim>\<open>String(...)\<close> conversion.
\<close>

datatype completion_part = Part_string jsstring | Part_object "jsstring option"

datatype completion_content =
  Nullish | Content_string jsstring | Content_array "completion_part list" | Content_other jsstring

datatype outcome = Resolved completion_content | Rejected js_error

text \<open>
  The provider is outside the program: the outcome of a call may depend on how many
  calls were made before and on the messages sent. The world records every call of
  \<^verbatim>\<open>openai.chat.completions.create\<close> with its messages, every \<^verbatim>\<open>sleep\<close> with its
  duration in milliseconds, and every invocation of the gateway (instrumentation only).
\<close>

type_synonym provider = "nat \<Rightarrow> message list \<Rightarrow> outcome"

record world =
  attempts :: "message list list"
  sleeps :: "jsnum list"
  gateway_calls :: "message list list"

definition world0 :: world where
  "world0 = \<lparr>attempts = [], sleeps = [], gateway_calls = []\<rparr>"

definition MAX_OPENAI_ATTEMPTS :: nat where
  "MAX_OPENAI_ATTEMPTS = 3"

definition sleep :: "jsnum \<Rightarrow> world \<Rightarrow> world" where
  "sleep durationMs w = w\<lparr>sleeps := sleeps w @ [durationMs]\<rparr>"

definition create :: "provider \<Rightarrow> message list \<Rightarrow> world \<Rightarrow> outcome \<times> world" where
  "create P messages w = (P (length (attempts w)) messages, w\<lparr>attempts := attempts w @ [messages]\<rparr>)"

definition completion_text :: "completion_content \<Rightarrow> js_error + jsstring" where
  \<comment> \<open>lines 67 to 94: the body of the \<^verbatim>\<open>try\<close> after the call\<close>
  "completion_text c = (case c of
       Nullish \<Rightarrow> Inl (new_Error ''Empty response from model'')
     | Content_string s \<Rightarrow> if s = [] then Inl (new_Error ''Empty response from model'') else Inr (trim s)
     | Content_array parts \<Rightarrow>
         Inr (trim (join (str ''\<newline>'')
           (map (\<lambda>part. case part of
                   Part_string s \<Rightarrow> s
                 | Part_object t \<Rightarrow> (case t of Some s \<Rightarrow> s | None \<Rightarrow> [])) parts)))
     | Content_other s \<Rightarrow> Inr (trim s))"

definition attempt_result :: "outcome \<Rightarrow> js_error + jsstring" where
  \<comment> \<open>what one pass through the \<^verbatim>\<open>try\<close> block yields: the text returned, or the error caught\<close>
  "attempt_result out = (case out of Rejected e \<Rightarrow> Inl e | Resolved c \<Rightarrow> completion_text c)"

definition is_rate_limit :: "js_error \<Rightarrow> bool" where
  \<comment> \<open>line 98\<close>
  "is_rate_limit error \<longleftrightarrow> instanceof_RateLimitError error \<or> error_status error = Some 429"

definition waitSeconds :: "js_error \<Rightarrow> jsnum" where
  \<comment> \<open>lines 99 to 102\<close>
  "waitSeconds error =
     (let retryAfterHeader = retry_after error;
          retryAfterSeconds = (case retryAfterHeader of
               None \<Rightarrow> NaN
             | Some h \<Rightarrow> if h = [] then NaN else parseFloat h)
      in if isFinite retryAfterSeconds \<and> js_less (Fin 0) retryAfterSeconds then retryAfterSeconds
         else Fin 20)"

function callOpenAI_loop ::
  "provider \<Rightarrow> message list \<Rightarrow> nat \<Rightarrow> js_error option \<Rightarrow> world \<Rightarrow> (js_error + jsstring) \<times> world"
where
  "callOpenAI_loop P messages attempt lastError w =
     (if attempt \<le> MAX_OPENAI_ATTEMPTS then
        (case create P messages w of
           (out, w1) \<Rightarrow>
             (case attempt_result out of
                Inr text \<Rightarrow> (Inr text, w1)
              | Inl error \<Rightarrow>
                  if is_rate_limit error then
                    (if attempt = MAX_OPENAI_ATTEMPTS then (Inl error, w1)
                     else callOpenAI_loop P messages (attempt + 1) (Some error)
                            (sleep (js_times (waitSeconds error) (Fin 1000)) w1))
                  else (Inl error, w1)))
      else (Inl (case lastError of Some e \<Rightarrow> e | None \<Rightarrow> new_Error ''OpenAI request failed''), w))"
  by pat_completeness auto
termination
  by (relation "measure (\<lambda>(P, messages, attempt, lastError, w). Suc MAX_OPENAI_ATTEMPTS - attempt)") auto

declare callOpenAI_loop.simps [simp del]

definition callOpenAI :: "provider \<Rightarrow> message list \<Rightarrow> world \<Rightarrow> (js_error + jsstring) \<times> world" where
  "callOpenAI P messages w =
     callOpenAI_loop P messages 1 None (w\<lparr>gateway_calls := gateway_calls w @ [messages]\<rparr>)"

section \<open>\<^verbatim>\<open>JSON.parse\<close>\<close>

text \<open>
  The value \<^verbatim>\<open>JSON.parse\<close> builds. An object keeps its members in the order of the
  text; reading a property takes the last member of that name, as a later duplicate
  overwrites an earlier one.
\<close>

datatype json =
  J_null | J_bool bool | J_number jsnum | J_string jsstring
  | J_array "json list" | J_object "(jsstring \<times> json) list"

datatype token =
  T_lbrace | T_rbrace | T_lbracket | T_rbracket | T_colon | T_comma
  | T_string jsstring | T_number jsnum | T_true | T_false | T_null

definition is_hex_digit :: "code_unit \<Rightarrow> bool" where
  "is_hex_digit c \<longleftrightarrow> is_digit c \<or> (0x61 \<le> c \<and> c \<le> 0x66) \<or> (0x41 \<le> c \<and> c \<le> 0x46)"

definition simple_escape :: "code_unit \<Rightarrow> code_unit option" where
  \<comment> \<open>the character a backslash and \<open>e\<close> stand for, \<^verbatim>\<open>\u\<close> apart\<close>
  "simple_escape e =
     (if e = 0x22 \<or> e = 0x5C \<or> e = 0x2F then Some e
      else if e = 0x62 then Some 0x8
      else if e = 0x66 then Some 0xC
      else if e = 0x6E then Some 0xA
      else if e = 0x72 then Some 0xD
      else if e = 0x74 then Some 0x9
      else None)"

fun scan_string :: "jsstring \<Rightarrow> jsstring \<Rightarrow> (jsstring \<times> jsstring) option" where
  \<comment> \<open>the characters of a string after its opening quote (collected in reverse), and the rest\<close>
  "scan_string acc [] = None"
| "scan_string acc (c # cs) =
     (if c = 0x22 then Some (rev acc, cs)
      else if c < 0x20 then None
      else if c \<noteq> 0x5C then scan_string (c # acc) cs
      else
        (case cs of
           [] \<Rightarrow> None
         | e # r \<Rightarrow>
             if e = 0x75 then
               (case r of
                  h1 # h2 # h3 # h4 # r' \<Rightarrow>
                    if is_hex_digit h1 \<and> is_hex_digit h2 \<and> is_hex_digit h3 \<and> is_hex_digit h4
                    then scan_string (word_of_int (digits_value 16 [h1, h2, h3, h4]) # acc) r'
                    else None
                | _ \<Rightarrow> None)
             else
               (case simple_escape e of
                  None \<Rightarrow> None
                | Some d \<Rightarrow> scan_string (d # acc) r)))"

definition scan_json_number :: "jsstring \<Rightarrow> (jsnum \<times> jsstring) option" where
  \<comment> \<open>a JSON number at the head of the input: no leading zeros, digits after a point and in an exponent\<close>
  "scan_json_number s =
     (let (neg, u) = (case s of
             [] \<Rightarrow> (False, s)
           | c # r \<Rightarrow> if c = 0x2D then (True, r) else (False, s));
          ip = takeWhile is_digit u; r1 = dropWhile is_digit u;
          has_fraction = (case r1 of [] \<Rightarrow> False | c # r \<Rightarrow> c = 0x2E);
          fp = (if has_fraction then takeWhile is_digit (tl r1) else []);
          r2 = (if has_fraction then dropWhile is_digit (tl r1) else r1);
          has_exponent = (case r2 of [] \<Rightarrow> False | c # r \<Rightarrow> c = 0x65 \<or> c = 0x45);
          (ex, r3) = scan_exponent r2
      in if (case ip of [] \<Rightarrow> True | d # ds \<Rightarrow> d = 0x30 \<and> ds \<noteq> [])
            \<or> (has_fraction \<and> fp = []) \<or> (has_exponent \<and> r3 = r2)
         then None
         else Some (round_double ((if neg then - 1 else 1) * of_int (digits_value 10 (ip @ fp))
                      * 10 powi (ex - int (length fp))), r3))"

lemma scan_string_shorter:
  "scan_string acc s = Some (t, r) \<Longrightarrow> length r < length s"
proof (induction acc s rule: scan_string.induct)
  case (1 acc)
  then show ?case by simp
next
  case (2 acc c cs)
  show ?case
  proof (cases "c = 0x22 \<or> c < 0x20 \<or> c \<noteq> 0x5C")
    case True
    with 2 show ?thesis
      by (auto split: if_splits)
  next
    case False
    then have c: "c \<noteq> 0x22" "\<not> c < 0x20" "c = 0x5C" by auto
    show ?thesis
    proof (cases cs)
      case Nil
      with "2.prems" c show ?thesis by simp
    next
      case (Cons e r0)
      show ?thesis
      proof (cases "e = 0x75")
        case True
        with "2.prems" c Cons obtain h1 h2 h3 h4 r' where
          r0: "r0 = h1 # h2 # h3 # h4 # r'"
          and hex: "is_hex_digit h1 \<and> is_hex_digit h2 \<and> is_hex_digit h3 \<and> is_hex_digit h4"
          and rec: "scan_string (word_of_int (digits_value 16 [h1, h2, h3, h4]) # acc) r' = Some (t, r)"
          by (auto split: list.splits if_splits)
        from "2.IH"(2) [OF c(1) c(2) _ Cons True r0] c hex rec
        have "length r < length r'" by simp
        with Cons r0 show ?thesis by simp
      next
        case False
        with "2.prems" c Cons obtain d where
          d: "simple_escape e = Some d" and rec: "scan_string (d # acc) r0 = Some (t, r)"
          by (auto split: option.splits)
        from "2.IH"(3) [OF c(1) c(2) _ Cons False d] c rec
        have "length r < length r0" by simp
        with Cons show ?thesis by simp
      qed
    qed
  qed
qed

lemma scan_exponent_shorter:
  "scan_exponent s = (ex, r) \<Longrightarrow> length r \<le> length s"
  by (auto simp: scan_exponent_def Let_def split: list.splits if_splits prod.splits
      intro: le_trans [OF length_dropWhile_le])

lemma scan_json_number_shorter:
  assumes "scan_json_number s = Some (n, r)"
  shows "length r < length s"
proof -
  obtain neg u where nu: "(case s of [] \<Rightarrow> (False, s)
      | c # r \<Rightarrow> if c = 0x2D then (True, r) else (False, s)) = (neg, u)"
    by (cases "case s of [] \<Rightarrow> (False, s) | c # r \<Rightarrow> if c = 0x2D then (True, r) else (False, s)")
  then have u: "length u \<le> length s"
    by (auto split: list.splits if_splits)
  define r1 where "r1 = dropWhile is_digit u"
  define r2 where "r2 = (if (case r1 of [] \<Rightarrow> False | c # r \<Rightarrow> c = 0x2E)
      then dropWhile is_digit (tl r1) else r1)"
  obtain ex r3 where ex: "scan_exponent r2 = (ex, r3)"
    by (cases "scan_exponent r2")
  from assms nu ex have ip: "takeWhile is_digit u \<noteq> []" and r: "r = r3"
    by (auto simp: scan_json_number_def Let_def r1_def r2_def split: if_splits list.splits)
  from ip have "length r1 < length u"
    unfolding r1_def by (metis length_append takeWhile_dropWhile_id length_greater_0_conv less_add_same_cancel2)
  moreover have "length r2 \<le> length r1"
    unfolding r2_def by (cases r1) (auto intro: le_trans [OF length_dropWhile_le])
  moreover from ex have "length r3 \<le> length r2"
    by (rule scan_exponent_shorter)
  ultimately show ?thesis
    using u r by simp
qed

function json_tokens :: "jsstring \<Rightarrow> token list option" where
  "json_tokens [] = Some []"
| "json_tokens (c # cs) =
     (if c = 0x20 \<or> c = 0x9 \<or> c = 0xA \<or> c = 0xD then json_tokens cs
      else if c = 0x7B then map_option ((#) T_lbrace) (json_tokens cs)
      else if c = 0x7D then map_option ((#) T_rbrace) (json_tokens cs)
      else if c = 0x5B then map_option ((#) T_lbracket) (json_tokens cs)
      else if c = 0x5D then map_option ((#) T_rbracket) (json_tokens cs)
      else if c = 0x3A then map_option ((#) T_colon) (json_tokens cs)
      else if c = 0x2C then map_option ((#) T_comma) (json_tokens cs)
      else if c = 0x22 then
        (case scan_string [] cs of
           None \<Rightarrow> None
         | Some (s, r) \<Rightarrow> map_option ((#) (T_string s)) (json_tokens r))
      else if c = 0x2D \<or> is_digit c then
        (case scan_json_number (c # cs) of
           None \<Rightarrow> None
         | Some (n, r) \<Rightarrow> map_option ((#) (T_number n)) (json_tokens r))
      else if take 4 (c # cs) = str ''true'' then map_option ((#) T_true) (json_tokens (drop 3 cs))
      else if take 5 (c # cs) = str ''false'' then map_option ((#) T_false) (json_tokens (drop 4 cs))
      else if take 4 (c # cs) = str ''null'' then map_option ((#) T_null) (json_tokens (drop 3 cs))
      else None)"
  by pat_completeness auto
termination
  by (relation "measure length")
    (auto dest: scan_string_shorter scan_json_number_shorter)

text \<open>
  The grammar of values over the tokens. The comparisons of lengths before the recursive
  calls after a comma only make the recursion visibly terminating: a value that was read
  leaves a shorter rest (\<open>parse_value_shorter\<close> below), so they never fail.
\<close>

function parse_value :: "token list \<Rightarrow> (json \<times> token list) option"
  and parse_elements :: "token list \<Rightarrow> (json list \<times> token list) option"
  and parse_members :: "token list \<Rightarrow> ((jsstring \<times> json) list \<times> token list) option"
where
  "parse_value [] = None"
| "parse_value (t # ts) =
     (case t of
        T_null \<Rightarrow> Some (J_null, ts)
      | T_true \<Rightarrow> Some (J_bool True, ts)
      | T_false \<Rightarrow> Some (J_bool False, ts)
      | T_number n \<Rightarrow> Some (J_number n, ts)
      | T_string s \<Rightarrow> Some (J_string s, ts)
      | T_lbracket \<Rightarrow>
          (case ts of
             T_rbracket # r \<Rightarrow> Some (J_array [], r)
           | _ \<Rightarrow> (case parse_elements ts of
                     None \<Rightarrow> None
                   | Some (vs, r) \<Rightarrow> Some (J_array vs, r)))
      | T_lbrace \<Rightarrow>
          (case ts of
             T_rbrace # r \<Rightarrow> Some (J_object [], r)
           | _ \<Rightarrow> (case parse_members ts of
                     None \<Rightarrow> None
                   | Some (ms, r) \<Rightarrow> Some (J_object ms, r)))
      | _ \<Rightarrow> None)"
| "parse_elements ts =
     (case parse_value ts of
        None \<Rightarrow> None
      | Some (v, r) \<Rightarrow>
          (case r of
             T_rbracket # r' \<Rightarrow> Some ([v], r')
           | T_comma # r' \<Rightarrow>
               if length r' < length ts then
                 (case parse_elements r' of
                    None \<Rightarrow> None
                  | Some (vs, r'') \<Rightarrow> Some (v # vs, r''))
               else None
           | _ \<Rightarrow> None))"
| "parse_members ts =
     (case ts of
        T_string k # T_colon # r \<Rightarrow>
          (case parse_value r of
             None \<Rightarrow> None
           | Some (v, r1) \<Rightarrow>
               (case r1 of
                  T_rbrace # r' \<Rightarrow> Some ([(k, v)], r')
                | T_comma # r' \<Rightarrow>
                    if length r' < length ts then
                      (case parse_members r' of
                         None \<Rightarrow> None
                       | Some (ms, r'') \<Rightarrow> Some ((k, v) # ms, r''))
                    else None
                | _ \<Rightarrow> None))
      | _ \<Rightarrow> None)"
  by pat_completeness auto
termination
  by (relation "measure (\<lambda>x. case x of
        Inl ts \<Rightarrow> 2 * length ts
      | Inr (Inl ts) \<Rightarrow> 2 * length ts + 1
      | Inr (Inr ts) \<Rightarrow> 2 * length ts + 1)")
    auto

declare json_tokens.simps [simp del]
declare parse_value.simps [simp del] parse_elements.simps [simp del] parse_members.simps [simp del]

lemma parse_shorter:
  "(\<forall>v r. parse_value ts = Some (v, r) \<longrightarrow> length r < length ts)
   \<and> (\<forall>vs r. parse_elements ts = Some (vs, r) \<longrightarrow> length r < length ts)
   \<and> (\<forall>ms r. parse_members ts = Some (ms, r) \<longrightarrow> length r < length ts)"
proof (induction ts rule: length_induct)
  case (1 ts)
  then have IH_elements: "length r < length ys"
    if "length ys < length ts" "parse_elements ys = Some (vs, r)" for ys vs r
    using that by blast
  from 1 have IH_members: "length r < length ys"
    if "length ys < length ts" "parse_members ys = Some (ms, r)" for ys ms r
    using that by blast
  from 1 have IH_value: "length r < length ys"
    if "length ys < length ts" "parse_value ys = Some (v, r)" for ys v r
    using that by blast
  have "value": "length r < length ts" if v: "parse_value ts = Some (v, r)" for v r
  proof (cases ts)
    case Nil
    with v show ?thesis by (simp add: parse_value.simps)
  next
    case (Cons t ts')
    show ?thesis
    proof (cases t)
      case T_lbracket
      show ?thesis
      proof (cases "\<exists>r'. ts' = T_rbracket # r'")
        case True
        with v Cons T_lbracket show ?thesis
          by (auto simp: parse_value.simps)
      next
        case False
        with v Cons T_lbracket obtain vs where "parse_elements ts' = Some (vs, r)"
          by (auto simp: parse_value.simps split: list.splits token.splits option.splits)
        with IH_elements [of ts' vs r] Cons show ?thesis by simp
      qed
    next
      case T_lbrace
      show ?thesis
      proof (cases "\<exists>r'. ts' = T_rbrace # r'")
        case True
        with v Cons T_lbrace show ?thesis
          by (auto simp: parse_value.simps)
      next
        case False
        with v Cons T_lbrace obtain ms where "parse_members ts' = Some (ms, r)"
          by (auto simp: parse_value.simps split: list.splits token.splits option.splits)
        with IH_members [of ts' ms r] Cons show ?thesis by simp
      qed
    qed (use v Cons in \<open>auto simp: parse_value.simps\<close>)
  qed
  have elements: "length r < length ts" if e: "parse_elements ts = Some (vs, r)" for vs r
  proof -
    from e obtain v r1 where first: "parse_value ts = Some (v, r1)"
      by (auto simp: parse_elements.simps [of ts] split: option.splits)
    note shorter = "value" [OF first]
    from e first consider
      (close) "r1 = T_rbracket # r"
      | (comma) r' vs' where "r1 = T_comma # r'" "parse_elements r' = Some (vs', r)"
      by (auto simp: parse_elements.simps [of ts] split: list.splits token.splits if_splits option.splits)
    then show ?thesis
    proof cases
      case close
      with shorter show ?thesis by simp
    next
      case comma
      with shorter IH_elements [of r' vs' r] show ?thesis by simp
    qed
  qed
  have members: "length r < length ts" if m: "parse_members ts = Some (ms, r)" for ms r
  proof -
    from m obtain k rest where ts: "ts = T_string k # T_colon # rest"
      by (auto simp: parse_members.simps [of ts] split: list.splits token.splits)
    note unroll = parse_members.simps [of "T_string k # T_colon # rest"]
    from m ts obtain v r1 where first: "parse_value rest = Some (v, r1)"
      by (auto simp: unroll split: option.splits)
    from ts have "length rest < length ts" by simp
    note shorter = IH_value [OF this first]
    from m ts first consider
      (close) "r1 = T_rbrace # r"
      | (comma) r' ms' where "r1 = T_comma # r'" "parse_members r' = Some (ms', r)"
      by (auto simp: unroll split: list.splits token.splits if_splits option.splits)
    then show ?thesis
    proof cases
      case close
      with shorter ts show ?thesis by simp
    next
      case comma
      with shorter ts IH_members [of r' ms' r] show ?thesis by simp
    qed
  qed
  from "value" elements members show ?case by blast
qed

lemma parse_value_shorter: "parse_value ts = Some (v, r) \<Longrightarrow> length r < length ts"
  using parse_shorter by blast

lemma parse_elements_unguarded:
  "parse_elements ts =
     (case parse_value ts of
        None \<Rightarrow> None
      | Some (v, r) \<Rightarrow>
          (case r of
             T_rbracket # r' \<Rightarrow> Some ([v], r')
           | T_comma # r' \<Rightarrow>
               (case parse_elements r' of
                  None \<Rightarrow> None
                | Some (vs, r'') \<Rightarrow> Some (v # vs, r''))
           | _ \<Rightarrow> None))"
  by (subst parse_elements.simps)
    (auto split: option.splits list.splits token.splits dest: parse_value_shorter)

lemma parse_members_unguarded:
  "parse_members ts =
     (case ts of
        T_string k # T_colon # r \<Rightarrow>
          (case parse_value r of
             None \<Rightarrow> None
           | Some (v, r1) \<Rightarrow>
               (case r1 of
                  T_rbrace # r' \<Rightarrow> Some ([(k, v)], r')
                | T_comma # r' \<Rightarrow>
                    (case parse_members r' of
                       None \<Rightarrow> None
                     | Some (ms, r'') \<Rightarrow> Some ((k, v) # ms, r''))
                | _ \<Rightarrow> None))
      | _ \<Rightarrow> None)"
  by (subst parse_members.simps)
    (auto split: option.splits list.splits token.splits dest: parse_value_shorter)

definition JSON_parse :: "jsstring \<Rightarrow> js_error + json" where
  "JSON_parse s = (case json_tokens s of
       None \<Rightarrow> Inl (new_Error ''SyntaxError'')
     | Some ts \<Rightarrow> (case parse_value ts of
         Some (v, []) \<Rightarrow> Inr v
       | _ \<Rightarrow> Inl (new_Error ''SyntaxError'')))"

text \<open>
  What the parsers ask of a parsed value. \<open>None\<close> stands for \<^verbatim>\<open>undefined\<close>.
  \<open>property\<close> reads one of the names \<^verbatim>\<open>items\<close>, \<^verbatim>\<open>text\<close> and \<^verbatim>\<open>hashtags\<close>, which
  only an object built by \<^verbatim>\<open>JSON.parse\<close> can have (no array, string, number or boolean
  has a property of these names).
\<close>

definition property :: "json \<Rightarrow> jsstring \<Rightarrow> json option" where
  "property v k = (case v of J_object ms \<Rightarrow> map_of (rev ms) k | _ \<Rightarrow> None)"

definition truthy :: "json option \<Rightarrow> bool" where
  "truthy v = (case v of
       None \<Rightarrow> False
     | Some J_null \<Rightarrow> False
     | Some (J_bool b) \<Rightarrow> b
     | Some (J_number n) \<Rightarrow> n \<noteq> Fin 0 \<and> n \<noteq> NaN
     | Some (J_string s) \<Rightarrow> s \<noteq> []
     | Some _ \<Rightarrow> True)"

definition isArray :: "json option \<Rightarrow> bool" where
  "isArray v = (case v of Some (J_array xs) \<Rightarrow> True | _ \<Rightarrow> False)"

definition elements :: "json option \<Rightarrow> json list" where
  "elements v = (case v of Some (J_array xs) \<Rightarrow> xs | _ \<Rightarrow> [])"

definition typeof_string :: "json option \<Rightarrow> bool" where
  "typeof_string v = (case v of Some (J_string s) \<Rightarrow> True | _ \<Rightarrow> False)"

definition string_of :: "json option \<Rightarrow> jsstring" where
  "string_of v = (case v of Some (J_string s) \<Rightarrow> s | _ \<Rightarrow> [])"

fun map_throwing :: "('a \<Rightarrow> js_error + 'b) \<Rightarrow> 'a list \<Rightarrow> js_error + 'b list" where
  \<comment> \<open>\<^verbatim>\<open>Array.prototype.map\<close> with a callback that may throw: the first throw ends it\<close>
  "map_throwing f [] = Inr []"
| "map_throwing f (x # xs) =
     (case f x of
        Inl e \<Rightarrow> Inl e
      | Inr y \<Rightarrow> (case map_throwing f xs of Inl e \<Rightarrow> Inl e | Inr ys \<Rightarrow> Inr (y # ys)))"

section \<open>Payload parsers and fallback catalogues\<close>

text \<open>
  The items of a response. The field \<^verbatim>\<open>text\<close> of the source is \<open>item_text\<close> in a
  caption and \<open>bio_text\<close> in a bio.
\<close>

record caption_item =
  item_text :: jsstring
  hashtags :: jsstring

record bio_item =
  bio_text :: jsstring

definition parseCaptionsPayload :: "jsstring \<Rightarrow> js_error + caption_item list" where
  \<comment> \<open>lines 123 to 151\<close>
  "parseCaptionsPayload raw =
     (case JSON_parse raw of
        Inl e \<Rightarrow> Inl e
      | Inr parsed \<Rightarrow>
          (let items = (if parsed = J_null then None else property parsed (str ''items''))
           in if \<not> truthy items \<or> \<not> isArray items \<or> length (elements items) \<noteq> 5
              then Inl (new_Error ''Invalid captions payload'')
              else map_throwing
                (\<lambda>item.
                   if \<not> truthy (Some item)
                      \<or> \<not> typeof_string (property item (str ''text''))
                      \<or> \<not> typeof_string (property item (str ''hashtags''))
                   then Inl (new_Error ''Invalid caption item'')
                   else Inr \<lparr>item_text = trim (string_of (property item (str ''text''))),
                             hashtags = trim (string_of (property item (str ''hashtags'')))\<rparr>)
                (elements items)))"

definition parseBioPayload :: "jsstring \<Rightarrow> js_error + bio_item list" where
  \<comment> \<open>lines 153 to 174\<close>
  "parseBioPayload raw =
     (case JSON_parse raw of
        Inl e \<Rightarrow> Inl e
      | Inr parsed \<Rightarrow>
          (let items = (if parsed = J_null then None else property parsed (str ''items''))
           in if \<not> truthy items \<or> \<not> isArray items \<or> length (elements items) \<noteq> 3
              then Inl (new_Error ''Invalid bio payload'')
              else map_throwing
                (\<lambda>item.
                   if \<not> truthy (Some item) \<or> \<not> typeof_string (property item (str ''text''))
                   then Inl (new_Error ''Invalid bio item'')
                   else Inr \<lparr>bio_text = trim (string_of (property item (str ''text'')))\<rparr>)
                (elements items)))"

definition buildFallbackCaptions :: "caption_item list" where
  \<comment> \<open>lines 176 to 199\<close>
  \<open>buildFallbackCaptions =
     [\<lparr>item_text =
         str ''Fresh perspective coming your way'' @
         [0x2014] @
         str ''stay tuned for the full story behind this shot.'',
       hashtags =
         str ''#behindthescenes #brandmoments #staytuned #socialready #captioncoach '' @
         str ''#storyteaser #creativepulse #shareworthy''\<rparr>,
      \<lparr>item_text =
         str ''Setting the scene with style while we polish the perfect caption for '' @
         str ''your feed.'',
       hashtags =
         str ''#freshcaption #feedgoals #styleinspo #captioncoach #brandvibes '' @
         str ''#contentcrew #socialspark #stayready''\<rparr>,
      \<lparr>item_text =
         str ''A dose of personality is on deck'' @
         [0x2014] @
         str ''your tailored caption will land the moment the coach is ready.'',
       hashtags =
         str ''#captionscoming #brandvoice #socialenergy #captioncoach #contentmagic '' @
         str ''#creativeflow #onbrand #watchthisspace''\<rparr>,
      \<lparr>item_text =
         str ''We are lining up details that hit the right tone'' @
         [0x2014] @
         str ''this placeholder keeps the post warm.'',
       hashtags =
         str ''#tonecheck #brandready #captioncoach #socialsuite #creativeprep '' @
         str ''#marketingmadeeasy #contentqueue #comingsoon''\<rparr>,
      \<lparr>item_text =
         str ''This space is saving your prime caption real estate while the coach '' @
         str ''finalizes the perfect copy.'',
       hashtags =
         str ''#captioncoach #socialcaption #brandspotlight #contentstudio '' @
         str ''#marketingflow #creativeprep #stayposted #copyinprogress''\<rparr>]\<close>

definition buildFallbackBios :: "bio_item list" where
  \<comment> \<open>lines 201 to 213\<close>
  \<open>buildFallbackBios =
     [\<lparr>bio_text =
         str ''Creating feel-good moments while celebrating the details that make this '' @
         str ''story unique.''\<rparr>,
      \<lparr>bio_text =
         str ''Sharing the highlights with warmth, purpose, and a spark of personality '' @
         str ''in every line.''\<rparr>,
      \<lparr>bio_text =
         str ''Telling the brand story with heart, clarity, and a voice that feels '' @
         str ''true to you.''\<rparr>]\<close>

section \<open>The request\<close>

text \<open>
  A multipart form is a list of named entries, each a string or a file;
  \<^verbatim>\<open>FormData.get\<close> returns the first entry of a name, or null. A file is given by
  its MIME type and its bytes, \<^verbatim>\<open>size\<close> being the number of bytes. A request whose body
  is not a form makes \<^verbatim>\<open>request.formData()\<close> throw a \<^verbatim>\<open>TypeError\<close>.
\<close>

record File =
  file_type :: jsstring
  file_bytes :: "8 word list"

datatype form_value = Form_string jsstring | Form_file File

type_synonym form_data = "(jsstring \<times> form_value) list"

datatype request = Form form_data | Unreadable

definition formData :: "request \<Rightarrow> js_error + form_data" where
  "formData request = (case request of
       Form fd \<Rightarrow> Inr fd
     | Unreadable \<Rightarrow> Inl (new_Error ''TypeError''))"

definition formData_get :: "form_data \<Rightarrow> jsstring \<Rightarrow> form_value option" where
  "formData_get fd name = map_of fd name"

record env =
  OPENAI_API_KEY :: "jsstring option"

datatype Mode = Captions | Bio

datatype response_body =
  Error_body jsstring | Captions_body "caption_item list" | Bio_body "bio_item list"

record response =
  status :: nat
  body :: response_body

definition NextResponse_json :: "response_body \<Rightarrow> nat \<Rightarrow> response" where
  "NextResponse_json b s = \<lparr>status = s, body = b\<rparr>"

definition allowedTones :: "jsstring list" where
  "allowedTones = [str ''funny'', str ''poetic'', str ''classy'', str ''branded'']"

definition maxCaptionGuidanceLength :: nat where "maxCaptionGuidanceLength = 280"
definition minBioGuidanceLength :: nat where "minBioGuidanceLength = 10"
definition maxBioGuidanceLength :: nat where "maxBioGuidanceLength = 400"
definition maxCharsMin :: jsnum where "maxCharsMin = Fin 40"
definition maxCharsMax :: jsnum where "maxCharsMax = Fin 220"

section \<open>Prompts\<close>

definition systemPrompt :: jsstring where
  \<open>systemPrompt =
     str ''You are Caption Coach, a sharp and safe social media copywriter. You '' @
     str ''write concise, engaging, brand-safe captions or short bios. Keep '' @
     str ''everything family-friendly and culturally respectful. Avoid '' @
     str ''medical/financial claims, controversial topics, and disallowed hashtags.''\<close>

definition captions_instruction :: "jsstring \<Rightarrow> jsnum option \<Rightarrow> jsstring \<Rightarrow> jsstring" where
  \<comment> \<open>lines 289 to 318\<close>
  \<open>captions_instruction tone maxChars guidance = join (str ''\<newline>'')
     [str ''Task: Create exactly FIVE distinct, platform-ready captions for the '' @
        str ''provided image with the chosen tone and optional character limit. If '' @
        str ''guidance is provided, weave it naturally.'',
      [],
      str ''Parameters:'',
      str ''- Tone: '' @ toUpperCase (take 1 tone) @ drop 1 tone,
      str ''- Max characters: '' @
        (case maxChars of None \<Rightarrow> str ''none'' | Some n \<Rightarrow> number_toString n),
      str ''- Guidance (optional): '' @ (if guidance = [] then str ''none'' else guidance),
      [],
      str ''Constraints for each caption:'',
      str ''- One sentence only. If Max characters is set, do not exceed it.'',
      str ''- Avoid emoji unless Tone=Funny (max 2).'',
      str ''- No brand claims or sensitive content.'',
      str ''- Make the five captions meaningfully different in angle (humor, vibe, '' @
        str ''CTA).'',
      str ''- If Guidance is provided, incorporate it naturally in at least two '' @
        str ''captions.'',
      [],
      str ''Hashtags:'',
      str ''- After each caption, create one line with 8'' @
        [0x2013] @
        str ''12 relevant hashtags.'',
      str ''- Lowercase; no spammy/banned tags; avoid repetition.'',
      [],
      str ''Output EXACTLY in JSON:'',
      str ''{'',
      str ''  "items": ['',
      str ''    { "text": "caption #1", "hashtags": "#tag1 #tag2 #tag3 ..." },'',
      str ''    { "text": "caption #2", "hashtags": "..." },'',
      str ''    { "text": "caption #3", "hashtags": "..." },'',
      str ''    { "text": "caption #4", "hashtags": "..." },'',
      str ''    { "text": "caption #5", "hashtags": "..." }'',
      str ''  ]'',
      str ''}'']\<close>

definition bio_instruction :: "jsstring \<Rightarrow> jsnum option \<Rightarrow> jsstring \<Rightarrow> jsstring" where
  \<comment> \<open>lines 374 to 397\<close>
  \<open>bio_instruction effectiveTone maxChars guidance = join (str ''\<newline>'')
     [str ''Task: Create exactly THREE concise, polished bios/captions crafted from '' @
        str ''the user'' @
        [0x27] @
        str ''s About text.'',
      str ''If a tone is provided, match it. Optionally respect a character limit.'',
      [],
      str ''Parameters:'',
      str ''- Tone (optional): '' @ toUpperCase (take 1 effectiveTone) @ drop 1 effectiveTone,
      str ''- Max characters: '' @
        (case maxChars of None \<Rightarrow> str ''none'' | Some n \<Rightarrow> number_toString n),
      str ''- About: '' @ guidance,
      [],
      str ''Constraints:'',
      str ''- Each output is one to two short sentences.'',
      str ''- If Max characters is set, do not exceed it.'',
      str ''- Keep it brand-safe, inclusive, and specific to the provided About '' @
        str ''text.'',
      str ''- Vary the three options in angle (professional, personable, playful) '' @
        str ''while respecting Tone.'',
      [],
      str ''Output EXACTLY in JSON:'',
      str ''{'',
      str ''  "items": ['',
      str ''    { "text": "bio #1" },'',
      str ''    { "text": "bio #2" },'',
      str ''    { "text": "bio #3" }'',
      str ''  ]'',
      str ''}'']\<close>

definition captions_retry_instruction :: jsstring where
  \<comment> \<open>line 345\<close>
  \<open>captions_retry_instruction =
     str ''The previous reply was invalid. Respond again with VALID JSON matching '' @
     str ''the exact schema. Include no commentary.''\<close>

definition bio_retry_instruction :: jsstring where
  \<comment> \<open>line 416\<close>
  \<open>bio_retry_instruction =
     str ''The previous reply was invalid. Respond again with VALID JSON matching '' @
     str ''the schema. Include no commentary.''\<close>

text \<open>\<^verbatim>\<open>Buffer.from(arrayBuffer).toString("base64")\<close>: the standard alphabet, padded.\<close>

definition sextet :: "nat \<Rightarrow> code_unit" where
  "sextet i = str ''ABCDEFGHIJKLMNOPQRSTUVWXYZabcdefghijklmnopqrstuvwxyz0123456789+/'' ! (i mod 64)"

fun base64 :: "8 word list \<Rightarrow> jsstring" where
  "base64 (a # b # c # r) =
     (let n = unat a * 65536 + unat b * 256 + unat c
      in [sextet (n div 262144), sextet (n div 4096), sextet (n div 64), sextet n] @ base64 r)"
| "base64 [a, b] =
     (let n = unat a * 65536 + unat b * 256
      in [sextet (n div 262144), sextet (n div 4096), sextet (n div 64), 0x3D])"
| "base64 [a] =
     (let n = unat a * 65536
      in [sextet (n div 262144), sextet (n div 4096), 0x3D, 0x3D])"
| "base64 [] = []"

definition captions_messages ::
  "jsstring \<Rightarrow> jsnum option \<Rightarrow> jsstring \<Rightarrow> File \<Rightarrow> message list" where
  \<comment> \<open>lines 285 to 329\<close>
  "captions_messages tone maxChars guidance image_file =
     (let base64Image = base64 (file_bytes image_file);
          dataUrl = str ''data:'' @ file_type image_file @ str '';base64,'' @ base64Image;
          instruction = captions_instruction tone maxChars guidance
      in [\<lparr>role = System, content = Plain systemPrompt\<rparr>,
          \<lparr>role = User, content = Multi [Text_part instruction, Image_url_part dataUrl]\<rparr>])"

definition bio_messages :: "jsstring \<Rightarrow> jsnum option \<Rightarrow> jsstring \<Rightarrow> message list" where
  \<comment> \<open>lines 374 to 402\<close>
  "bio_messages effectiveTone maxChars guidance =
     (let instruction = bio_instruction effectiveTone maxChars guidance
      in [\<lparr>role = System, content = Plain systemPrompt\<rparr>,
          \<lparr>role = User, content = Plain instruction\<rparr>])"

definition captions_retryMessages :: "message list \<Rightarrow> jsstring \<Rightarrow> message list" where
  \<comment> \<open>lines 337 to 349\<close>
  "captions_retryMessages messages raw =
     messages @
     [\<lparr>role = Assistant, content = Plain raw\<rparr>,
      \<lparr>role = User, content = Multi [Text_part captions_retry_instruction]\<rparr>]"

definition bio_retryMessages :: "message list \<Rightarrow> jsstring \<Rightarrow> message list" where
  \<comment> \<open>lines 410 to 418\<close>
  "bio_retryMessages messages raw =
     messages @
     [\<lparr>role = Assistant, content = Plain raw\<rparr>,
      \<lparr>role = User, content = Plain bio_retry_instruction\<rparr>]"

section \<open>The handler\<close>

text \<open>
  \<^verbatim>\<open>POST\<close> is embedded in four parts: everything up to the first call of the gateway
  (\<open>POST_prepare\<close>: it reads the form and the environment only, and ends in a response
  or in the messages to send; \<open>maxChars_rejected\<close> is its test of the character cap), the
  two generation blocks with their corrective re-prompt
  (\<open>generate_captions\<close>, \<open>generate_bio\<close>), and the \<^verbatim>\<open>catch\<close> block (\<open>POST_catch\<close>),
  which sees the error thrown and the value the variable \<^verbatim>\<open>mode\<close> has by then.
\<close>

datatype prepared =
  Respond response | Generate_captions "message list" | Generate_bio "message list"

definition invalid_input :: response where
  "invalid_input = NextResponse_json (Error_body (str ''Invalid input'')) 400"

definition maxChars_rejected :: "jsnum option \<Rightarrow> bool" where
  \<comment> \<open>the condition of lines 254 to 259\<close>
  "maxChars_rejected maxChars =
     (case maxChars of
        None \<Rightarrow> False
      | Some n \<Rightarrow> \<not> isInteger n \<or> js_less n maxCharsMin \<or> js_less maxCharsMax n)"

definition POST_prepare :: "env \<Rightarrow> form_data \<Rightarrow> prepared" where
  \<comment> \<open>lines 220 to 329 and 362 to 402\<close>
  "POST_prepare env fd =
     (let modeValue = formData_get fd (str ''mode'') in
      if modeValue \<noteq> Some (Form_string (str ''captions'')) \<and> modeValue \<noteq> Some (Form_string (str ''bio''))
      then Respond invalid_input
      else
        let mode = (if modeValue = Some (Form_string (str ''captions'')) then Captions else Bio) in
        if OPENAI_API_KEY env = None \<or> OPENAI_API_KEY env = Some [] then
          (if mode = Captions
           then Respond (NextResponse_json (Captions_body buildFallbackCaptions) 200)
           else Respond (NextResponse_json (Bio_body buildFallbackBios) 200))
        else
          let tone = (case formData_get fd (str ''tone'') of
                  Some (Form_string toneRaw) \<Rightarrow> Some (toLowerCase toneRaw)
                | _ \<Rightarrow> None);
              guidance = (case formData_get fd (str ''guidance'') of
                  Some (Form_string guidanceRaw) \<Rightarrow> trim guidanceRaw
                | _ \<Rightarrow> []);
              maxChars = (case formData_get fd (str ''maxChars'') of
                  Some (Form_string maxCharsRaw) \<Rightarrow>
                    if 0 < length maxCharsRaw then Some (Number maxCharsRaw) else None
                | _ \<Rightarrow> None)
          in
          if maxChars_rejected maxChars then Respond invalid_input
          else if mode = Captions then
            (if (case tone of None \<Rightarrow> True | Some t \<Rightarrow> t = [] \<or> t \<notin> set allowedTones)
             then Respond invalid_input
             else if maxCaptionGuidanceLength < length guidance then Respond invalid_input
             else
               (case formData_get fd (str ''image'') of
                  Some (Form_file image_file) \<Rightarrow>
                    if file_type image_file \<noteq> str ''image/png''
                       \<and> file_type image_file \<noteq> str ''image/jpeg''
                    then Respond invalid_input
                    else if 3 * 1024 * 1024 < length (file_bytes image_file) then Respond invalid_input
                    else Generate_captions
                      (captions_messages (case tone of Some t \<Rightarrow> t | None \<Rightarrow> [])
                         maxChars guidance image_file)
                | _ \<Rightarrow> Respond invalid_input))
          else
            (if length guidance < minBioGuidanceLength \<or> maxBioGuidanceLength < length guidance
             then Respond invalid_input
             else if (case tone of None \<Rightarrow> False | Some t \<Rightarrow> t \<noteq> [] \<and> t \<notin> set allowedTones)
             then Respond invalid_input
             else
               let effectiveTone = (case tone of
                       None \<Rightarrow> str ''classy''
                     | Some t \<Rightarrow> if t \<noteq> [] \<and> t \<in> set allowedTones then t else str ''classy'')
               in Generate_bio (bio_messages effectiveTone maxChars guidance)))"

definition generate_captions ::
  "provider \<Rightarrow> message list \<Rightarrow> world \<Rightarrow> (js_error + response) \<times> world" where
  \<comment> \<open>lines 331 to 359\<close>
  "generate_captions P messages w =
     (case callOpenAI P messages w of
        (Inl error, w1) \<Rightarrow> (Inl error, w1)
      | (Inr raw, w1) \<Rightarrow>
          (case parseCaptionsPayload raw of
             Inr items \<Rightarrow> (Inr (NextResponse_json (Captions_body items) 200), w1)
           | Inl _ \<Rightarrow>
               (case callOpenAI P (captions_retryMessages messages raw) w1 of
                  (Inl _, w2) \<Rightarrow>
                    (Inr (NextResponse_json (Captions_body buildFallbackCaptions) 200), w2)
                | (Inr raw2, w2) \<Rightarrow>
                    (case parseCaptionsPayload raw2 of
                       Inr items \<Rightarrow> (Inr (NextResponse_json (Captions_body items) 200), w2)
                     | Inl _ \<Rightarrow>
                         (Inr (NextResponse_json (Captions_body buildFallbackCaptions) 200), w2)))))"

definition generate_bio ::
  "provider \<Rightarrow> message list \<Rightarrow> world \<Rightarrow> (js_error + response) \<times> world" where
  \<comment> \<open>lines 404 to 428\<close>
  "generate_bio P messages w =
     (case callOpenAI P messages w of
        (Inl error, w1) \<Rightarrow> (Inl error, w1)
      | (Inr raw, w1) \<Rightarrow>
          (case parseBioPayload raw of
             Inr items \<Rightarrow> (Inr (NextResponse_json (Bio_body items) 200), w1)
           | Inl _ \<Rightarrow>
               (case callOpenAI P (bio_retryMessages messages raw) w1 of
                  (Inl _, w2) \<Rightarrow> (Inr (NextResponse_json (Bio_body buildFallbackBios) 200), w2)
                | (Inr raw2, w2) \<Rightarrow>
                    (case parseBioPayload raw2 of
                       Inr items \<Rightarrow> (Inr (NextResponse_json (Bio_body items) 200), w2)
                     | Inl _ \<Rightarrow> (Inr (NextResponse_json (Bio_body buildFallbackBios) 200), w2)))))"

definition POST_catch :: "Mode option \<Rightarrow> js_error \<Rightarrow> response" where
  \<comment> \<open>lines 429 to 465\<close>
  "POST_catch mode error =
     (let fallback = (case mode of
             Some Captions \<Rightarrow> Some (Captions_body buildFallbackCaptions)
           | Some Bio \<Rightarrow> Some (Bio_body buildFallbackBios)
           | None \<Rightarrow> None)
      in if instanceof_APIError error \<and> error_status error = Some 429 then
           (case fallback of
              Some b \<Rightarrow> NextResponse_json b 200
            | None \<Rightarrow> NextResponse_json (Error_body (str ''Easy there. Try again in a moment.'')) 429)
         else if instanceof_APIError error
                 \<and> (error_status error = Some 401 \<or> error_status error = Some 403) then
           NextResponse_json (Error_body (str ''Check your OpenAI credentials.'')) 500
         else
           (case fallback of
              Some b \<Rightarrow> NextResponse_json b 200
            | None \<Rightarrow> NextResponse_json (Error_body (str ''Something went wrong'')) 500))"

definition POST :: "env \<Rightarrow> provider \<Rightarrow> request \<Rightarrow> world \<Rightarrow> response \<times> world" where
  \<comment> \<open>lines 215 to 466\<close>
  "POST env P request w =
     (case formData request of
        Inl error \<Rightarrow> (POST_catch None error, w)
      | Inr fd \<Rightarrow>
          (case POST_prepare env fd of
             Respond r \<Rightarrow> (r, w)
           | Generate_captions messages \<Rightarrow>
               (case generate_captions P messages w of
                  (Inr r, w') \<Rightarrow> (r, w')
                | (Inl error, w') \<Rightarrow> (POST_catch (Some Captions) error, w'))
           | Generate_bio messages \<Rightarrow>
               (case generate_bio P messages w of
                  (Inr r, w') \<Rightarrow> (r, w')
                | (Inl error, w') \<Rightarrow> (POST_catch (Some Bio) error, w'))))"

text \<open>
  Before \<^verbatim>\<open>POST\<close> can serve a request the module has to load, and its top level
  (lines 33 to 35) constructs the client with \<^verbatim>\<open>process.env.OPENAI_API_KEY\<close> as the key.
  The constructor belongs to the \<^verbatim>\<open>openai\<close> package, not to this repository: it throws
  when the key it is given is \<^verbatim>\<open>undefined\<close> (the variable is not set) and accepts every
  string, the empty one included. A module that failed to load serves no request, so the
  route as a whole (\<open>route\<close>) ends in that error or in what \<^verbatim>\<open>POST\<close> does.
\<close>

definition new_OpenAI :: "jsstring option \<Rightarrow> js_error + unit" where
  "new_OpenAI apiKey =
     (case apiKey of
        None \<Rightarrow> Inl (new_Error ''OpenAIError'')
      | Some key \<Rightarrow> Inr ())"

definition module_load :: "env \<Rightarrow> js_error + unit" where
  \<comment> \<open>lines 33 to 35\<close>
  "module_load env = new_OpenAI (OPENAI_API_KEY env)"

definition route :: "env \<Rightarrow> provider \<Rightarrow> request \<Rightarrow> world \<Rightarrow> js_error + response \<times> world" where
  "route env P request w =
     (case module_load env of
        Inl error \<Rightarrow> Inl error
      | Inr openai \<Rightarrow> Inr (POST env P request w))"

section \<open>Evaluating the model on concrete inputs\<close>

text \<open>
  The definitions are evaluated by rewriting. These are the equations to unfold for each
  part of the model.
\<close>

lemma bit_length_numeral:
  "bit_length (numeral k) = 1 + bit_length (numeral k div 2)"
  "bit_length 1 = 1" "bit_length 0 = 0"
  by (simp_all add: bit_length.simps)

lemmas number_eval =
  Number_def parseFloat_def trim_def str_def is_white_space_def radix_literal_def scan_signed_def
  scan_decimal_def scan_exponent_def is_digit_def digit_value_def digits_value_def
  round_double_def binade_def bit_length_numeral round_half_even_def js_times_def Let_def

lemmas gateway_eval =
  callOpenAI_def callOpenAI_loop.simps create_def attempt_result_def completion_text_def
  is_rate_limit_def instanceof_RateLimitError_def waitSeconds_def isFinite_def sleep_def
  MAX_OPENAI_ATTEMPTS_def new_Error_def world0_def

section \<open>Properties of the gateway\<close>

text \<open>
  What one run of the retry loop does, started at attempt \<open>a\<close>: it makes \<open>k\<close> calls,
  all with the same messages, sleeps between consecutive calls, and ends with the result
  of its last call; every earlier call failed with a rate-limit signal, and a rate-limit
  failure ends the loop only at the last permitted attempt.
\<close>

lemma callOpenAI_loop_trace:
  assumes "callOpenAI_loop P messages a lastError w = (r, w')" and "a \<le> MAX_OPENAI_ATTEMPTS"
  shows "\<exists>k. 1 \<le> k \<and> a + k \<le> Suc MAX_OPENAI_ATTEMPTS
      \<and> attempts w' = attempts w @ replicate k messages
      \<and> length (sleeps w') = length (sleeps w) + (k - 1)
      \<and> gateway_calls w' = gateway_calls w
      \<and> r = attempt_result (P (length (attempts w) + (k - 1)) messages)
      \<and> (\<forall>i<k - 1. \<exists>e. attempt_result (P (length (attempts w) + i) messages) = Inl e \<and> is_rate_limit e)
      \<and> ((\<exists>e. r = Inl e \<and> is_rate_limit e) \<longrightarrow> a + k = Suc MAX_OPENAI_ATTEMPTS)"
  using assms
proof (induction "MAX_OPENAI_ATTEMPTS - a" arbitrary: a lastError w r w' rule: less_induct)
  case less
  define n where "n = length (attempts w)"
  define w1 where "w1 = w\<lparr>attempts := attempts w @ [messages]\<rparr>"
  note unroll = callOpenAI_loop.simps [of P messages a lastError w]
  show ?case
  proof (cases "attempt_result (P n messages)")
    case (Inr t)
    with less.prems have "r = Inr t" "w' = w1"
      by (auto simp: unroll create_def n_def w1_def split: if_splits)
    with Inr show ?thesis
      using less.prems(2) by (intro exI [of _ 1]) (simp add: w1_def n_def)
  next
    case (Inl error)
    show ?thesis
    proof (cases "is_rate_limit error \<and> a \<noteq> MAX_OPENAI_ATTEMPTS")
      case False
      with Inl less.prems have "r = Inl error" "w' = w1"
        by (auto simp: unroll create_def n_def w1_def split: if_splits)
      with Inl False show ?thesis
        using less.prems(2) by (intro exI [of _ 1]) (auto simp: w1_def n_def)
    next
      case True
      define w2 where "w2 = sleep (js_times (waitSeconds error) (Fin 1000)) w1"
      from True Inl less.prems
      have again: "callOpenAI_loop P messages (a + 1) (Some error) w2 = (r, w')"
        by (auto simp: unroll create_def n_def w1_def w2_def split: if_splits)
      from True less.prems(2) have lt: "a + 1 \<le> MAX_OPENAI_ATTEMPTS" by simp
      then have "MAX_OPENAI_ATTEMPTS - (a + 1) < MAX_OPENAI_ATTEMPTS - a" by simp
      from less.hyps [OF this again lt] obtain k where k:
        "1 \<le> k" "a + 1 + k \<le> Suc MAX_OPENAI_ATTEMPTS"
        "attempts w' = attempts w2 @ replicate k messages"
        "length (sleeps w') = length (sleeps w2) + (k - 1)"
        "gateway_calls w' = gateway_calls w2"
        "r = attempt_result (P (length (attempts w2) + (k - 1)) messages)"
        "\<forall>i<k - 1. \<exists>e. attempt_result (P (length (attempts w2) + i) messages) = Inl e \<and> is_rate_limit e"
        "(\<exists>e. r = Inl e \<and> is_rate_limit e) \<longrightarrow> a + 1 + k = Suc MAX_OPENAI_ATTEMPTS"
        by blast
      have w2: "attempts w2 = attempts w @ [messages]" "length (sleeps w2) = Suc (length (sleeps w))"
        "gateway_calls w2 = gateway_calls w"
        by (simp_all add: w2_def w1_def sleep_def)
      have earlier: "\<exists>e. attempt_result (P (length (attempts w) + i) messages) = Inl e \<and> is_rate_limit e"
        if "i < k" for i
      proof (cases i)
        case 0
        with Inl True show ?thesis by (simp add: n_def)
      next
        case (Suc j)
        with that have "j < k - 1" by simp
        with k(7) w2(1) Suc show ?thesis by simp
      qed
      show ?thesis
      proof (intro exI [of _ "Suc k"] conjI)
        show "1 \<le> Suc k" by simp
        show "a + Suc k \<le> Suc MAX_OPENAI_ATTEMPTS" using k(2) by simp
        show "attempts w' = attempts w @ replicate (Suc k) messages"
          using k(3) w2(1) by simp
        show "length (sleeps w') = length (sleeps w) + (Suc k - 1)"
          using k(1,4) w2(2) by simp
        show "gateway_calls w' = gateway_calls w" using k(5) w2(3) by simp
        show "r = attempt_result (P (length (attempts w) + (Suc k - 1)) messages)"
          using k(1,6) w2(1) by simp
        show "\<forall>i<Suc k - 1. \<exists>e. attempt_result (P (length (attempts w) + i) messages) = Inl e \<and> is_rate_limit e"
          using earlier by simp
        show "(\<exists>e. r = Inl e \<and> is_rate_limit e) \<longrightarrow> a + Suc k = Suc MAX_OPENAI_ATTEMPTS"
          using k(8) by simp
      qed
    qed
  qed
qed

lemma callOpenAI_trace:
  assumes "callOpenAI P messages w = (r, w')"
  shows "\<exists>k. 1 \<le> k \<and> k \<le> MAX_OPENAI_ATTEMPTS
      \<and> attempts w' = attempts w @ replicate k messages
      \<and> length (sleeps w') = length (sleeps w) + (k - 1)
      \<and> gateway_calls w' = gateway_calls w @ [messages]
      \<and> r = attempt_result (P (length (attempts w) + (k - 1)) messages)
      \<and> (\<forall>i<k - 1. \<exists>e. attempt_result (P (length (attempts w) + i) messages) = Inl e \<and> is_rate_limit e)
      \<and> ((\<exists>e. r = Inl e \<and> is_rate_limit e) \<longrightarrow> k = MAX_OPENAI_ATTEMPTS)"
proof -
  from assms have "callOpenAI_loop P messages 1 None (w\<lparr>gateway_calls := gateway_calls w @ [messages]\<rparr>) = (r, w')"
    by (simp add: callOpenAI_def)
  from callOpenAI_loop_trace [OF this] show ?thesis
    by (auto simp: MAX_OPENAI_ATTEMPTS_def)
qed

text \<open>Sample provider behaviour.\<close>

definition rate_limited :: js_error where
  "rate_limited = \<lparr>error_class = RateLimitError, error_status = Some 429,
     retry_after = Some (str ''2''), message = str ''Rate limit reached''\<rparr>"

definition unauthorized :: js_error where
  "unauthorized = \<lparr>error_class = APIError, error_status = Some 401,
     retry_after = None, message = str ''Incorrect API key provided''\<rparr>"

definition provider_third_time :: provider where
  "provider_third_time n messages =
     (if n < 2 then Rejected rate_limited else Resolved (Content_string (str '' ok '')))"

definition provider_unauthorized_second :: provider where
  "provider_unauthorized_second n messages =
     (if n < 1 then Rejected rate_limited else Rejected unauthorized)"

lemma run_third_time:
  "callOpenAI provider_third_time [] world0 =
     (Inr (str ''ok''),
      \<lparr>attempts = [[], [], []], sleeps = [Fin 2000, Fin 2000], gateway_calls = [[]]\<rparr>)"
  by (simp add: gateway_eval number_eval provider_third_time_def rate_limited_def)

lemma run_unauthorized_second:
  "callOpenAI provider_unauthorized_second [] world0 =
     (Inl unauthorized, \<lparr>attempts = [[], []], sleeps = [Fin 2000], gateway_calls = [[]]\<rparr>)"
  by (simp add: gateway_eval number_eval provider_unauthorized_second_def rate_limited_def unauthorized_def)

text \<open>
  Claim C7. One run of the gateway makes between one and three provider calls
  (\<open>MAX_OPENAI_ATTEMPTS = 3\<close>). What it returns or raises is the outcome of the last call
  it made: every call before that one failed, so a call that succeeds ends the run at
  once, and when the permitted attempts are used up without success the error raised is
  the one of the last attempt. A success whose content is a non-empty string yields that
  string, trimmed.
\<close>

theorem gateway_attempts_bounded:
  assumes "callOpenAI P messages w = (r, w')"
  shows "\<exists>k. 1 \<le> k \<and> k \<le> MAX_OPENAI_ATTEMPTS \<and> MAX_OPENAI_ATTEMPTS = 3
      \<and> attempts w' = attempts w @ replicate k messages
      \<and> r = attempt_result (P (length (attempts w) + (k - 1)) messages)
      \<and> (\<forall>i<k - 1. \<exists>e. attempt_result (P (length (attempts w) + i) messages) = Inl e)
      \<and> (\<forall>s. s \<noteq> [] \<longrightarrow> attempt_result (Resolved (Content_string s)) = Inr (trim s))"
proof -
  from callOpenAI_trace [OF assms] obtain k where
    "1 \<le> k" "k \<le> MAX_OPENAI_ATTEMPTS" "attempts w' = attempts w @ replicate k messages"
    "r = attempt_result (P (length (attempts w) + (k - 1)) messages)"
    "\<forall>i<k - 1. \<exists>e. attempt_result (P (length (attempts w) + i) messages) = Inl e \<and> is_rate_limit e"
    by blast
  moreover have "\<forall>s. s \<noteq> [] \<longrightarrow> attempt_result (Resolved (Content_string s)) = Inr (trim s)"
    by (simp add: attempt_result_def completion_text_def)
  ultimately show ?thesis
    by (intro exI [of _ k]) (auto simp: MAX_OPENAI_ATTEMPTS_def)
qed

theorem gateway_attempts_bounded_witness:
  "callOpenAI provider_third_time [] world0 =
     (Inr (str ''ok''),
      \<lparr>attempts = [[], [], []], sleeps = [Fin 2000, Fin 2000], gateway_calls = [[]]\<rparr>)
   \<and> (\<exists>k. 1 \<le> k \<and> k \<le> MAX_OPENAI_ATTEMPTS \<and> MAX_OPENAI_ATTEMPTS = 3
      \<and> [[], [], []] = attempts world0 @ replicate k []
      \<and> Inr (str ''ok'') = attempt_result (provider_third_time (length (attempts world0) + (k - 1)) [])
      \<and> (\<forall>i<k - 1. \<exists>e. attempt_result (provider_third_time (length (attempts world0) + i) []) = Inl e)
      \<and> (\<forall>s. s \<noteq> [] \<longrightarrow> attempt_result (Resolved (Content_string s)) = Inr (trim s)))"
  using gateway_attempts_bounded [OF run_third_time] run_third_time by simp

text \<open>
  Claim C8. In one run of the gateway that makes \<open>k\<close> calls there are \<open>k - 1\<close> sleeps; each
  call that is followed by another one is a non-final attempt that failed with a
  rate-limit signal; a rate-limit failure is raised only by the last permitted attempt;
  and a call that fails with anything else is the last call of the run and its error is
  what the gateway raises. An empty response (no content, or the empty string) is such an
  error, and so is an API error of status 401.
\<close>

theorem gateway_retries_only_rate_limits:
  assumes "callOpenAI P messages w = (r, w')"
  shows "\<exists>k. 1 \<le> k \<and> attempts w' = attempts w @ replicate k messages
      \<and> length (sleeps w') = length (sleeps w) + (k - 1)
      \<and> (\<forall>i<k - 1. i + 1 < MAX_OPENAI_ATTEMPTS
            \<and> (\<exists>e. attempt_result (P (length (attempts w) + i) messages) = Inl e \<and> is_rate_limit e))
      \<and> ((\<exists>e. r = Inl e \<and> is_rate_limit e) \<longrightarrow> k = MAX_OPENAI_ATTEMPTS)
      \<and> (\<forall>i e. i < k \<and> attempt_result (P (length (attempts w) + i) messages) = Inl e
            \<and> \<not> is_rate_limit e \<longrightarrow> i = k - 1 \<and> r = Inl e)
      \<and> attempt_result (Resolved Nullish) = Inl (new_Error ''Empty response from model'')
      \<and> attempt_result (Resolved (Content_string [])) = Inl (new_Error ''Empty response from model'')
      \<and> \<not> is_rate_limit (new_Error ''Empty response from model'')
      \<and> (\<forall>e. error_class e = APIError \<and> error_status e = Some 401 \<longrightarrow> \<not> is_rate_limit e)"
proof -
  from callOpenAI_trace [OF assms] obtain k where k:
    "1 \<le> k" "k \<le> MAX_OPENAI_ATTEMPTS" "attempts w' = attempts w @ replicate k messages"
    "length (sleeps w') = length (sleeps w) + (k - 1)"
    "r = attempt_result (P (length (attempts w) + (k - 1)) messages)"
    "\<forall>i<k - 1. \<exists>e. attempt_result (P (length (attempts w) + i) messages) = Inl e \<and> is_rate_limit e"
    "(\<exists>e. r = Inl e \<and> is_rate_limit e) \<longrightarrow> k = MAX_OPENAI_ATTEMPTS"
    by blast
  have last: "i = k - 1 \<and> r = Inl e"
    if "i < k" "attempt_result (P (length (attempts w) + i) messages) = Inl e" "\<not> is_rate_limit e"
    for i e
  proof -
    from that k(6) have "\<not> i < k - 1" by auto
    with that(1) have "i = k - 1" by simp
    with that(2) k(5) show ?thesis by simp
  qed
  have empty: "attempt_result (Resolved Nullish) = Inl (new_Error ''Empty response from model'')"
    "attempt_result (Resolved (Content_string [])) = Inl (new_Error ''Empty response from model'')"
    "\<not> is_rate_limit (new_Error ''Empty response from model'')"
    "\<forall>e. error_class e = APIError \<and> error_status e = Some 401 \<longrightarrow> \<not> is_rate_limit e"
    by (simp_all add: attempt_result_def completion_text_def is_rate_limit_def
        instanceof_RateLimitError_def new_Error_def)
  show ?thesis
  proof (intro exI [of _ k] conjI)
    show "\<forall>i<k - 1. i + 1 < MAX_OPENAI_ATTEMPTS
        \<and> (\<exists>e. attempt_result (P (length (attempts w) + i) messages) = Inl e \<and> is_rate_limit e)"
      using k(2,6) by auto
    show "\<forall>i e. i < k \<and> attempt_result (P (length (attempts w) + i) messages) = Inl e
        \<and> \<not> is_rate_limit e \<longrightarrow> i = k - 1 \<and> r = Inl e"
      using last by blast
    show "1 \<le> k" by (rule k(1))
    show "attempts w' = attempts w @ replicate k messages" by (rule k(3))
    show "length (sleeps w') = length (sleeps w) + (k - 1)" by (rule k(4))
    show "(\<exists>e. r = Inl e \<and> is_rate_limit e) \<longrightarrow> k = MAX_OPENAI_ATTEMPTS" by (rule k(7))
  qed (rule empty)+
qed

theorem gateway_retries_only_rate_limits_witness:
  "callOpenAI provider_unauthorized_second [] world0 =
     (Inl unauthorized, \<lparr>attempts = [[], []], sleeps = [Fin 2000], gateway_calls = [[]]\<rparr>)
   \<and> (\<exists>k. 1 \<le> k \<and> [[], []] = attempts world0 @ replicate k []
      \<and> length [Fin 2000 :: jsnum] = length (sleeps world0) + (k - 1)
      \<and> (\<forall>i<k - 1. i + 1 < MAX_OPENAI_ATTEMPTS
            \<and> (\<exists>e. attempt_result (provider_unauthorized_second (length (attempts world0) + i) []) = Inl e
                  \<and> is_rate_limit e))
      \<and> ((\<exists>e. (Inl unauthorized :: js_error + jsstring) = Inl e \<and> is_rate_limit e)
            \<longrightarrow> k = MAX_OPENAI_ATTEMPTS)
      \<and> (\<forall>i e. i < k
            \<and> attempt_result (provider_unauthorized_second (length (attempts world0) + i) []) = Inl e
            \<and> \<not> is_rate_limit e \<longrightarrow> i = k - 1 \<and> (Inl unauthorized :: js_error + jsstring) = Inl e)
      \<and> attempt_result (Resolved Nullish) = Inl (new_Error ''Empty response from model'')
      \<and> attempt_result (Resolved (Content_string [])) = Inl (new_Error ''Empty response from model'')
      \<and> \<not> is_rate_limit (new_Error ''Empty response from model'')
      \<and> (\<forall>e. error_class e = APIError \<and> error_status e = Some 401 \<longrightarrow> \<not> is_rate_limit e))"
  using gateway_retries_only_rate_limits [OF run_unauthorized_second] run_unauthorized_second
  by simp

section \<open>Properties of the parsers\<close>

lemma map_throwing_length:
  "map_throwing f xs = Inr ys \<Longrightarrow> length ys = length xs"
  by (induction xs arbitrary: ys) (auto split: sum.splits)

lemma map_throwing_results:
  "map_throwing f xs = Inr ys \<Longrightarrow> y \<in> set ys \<Longrightarrow> \<exists>x\<in>set xs. f x = Inr y"
  by (induction xs arbitrary: ys) (auto split: sum.splits)

lemma dropWhile_fixed:
  "xs = [] \<or> \<not> P (hd xs) \<Longrightarrow> dropWhile P xs = xs"
  by (cases xs) auto

lemma trim_trim: "trim (trim s) = trim s"
proof -
  define a where "a = dropWhile is_white_space s"
  define b where "b = dropWhile is_white_space (rev a)"
  have a: "a = [] \<or> \<not> is_white_space (hd a)"
    unfolding a_def by (metis hd_dropWhile)
  have b: "b = [] \<or> \<not> is_white_space (hd b)"
    unfolding b_def by (metis hd_dropWhile)
  have "rev b = [] \<or> \<not> is_white_space (hd (rev b))"
  proof (cases "b = []")
    case True
    then show ?thesis by simp
  next
    case False
    obtain c where c: "rev a = c @ b"
      unfolding b_def by (metis takeWhile_dropWhile_id)
    then have "a = rev b @ rev c" by (metis rev_append rev_rev_ident)
    with False have "hd (rev b) = hd a" by simp
    moreover from False c have "a \<noteq> []" by auto
    ultimately show ?thesis using a by simp
  qed
  then have 1: "dropWhile is_white_space (rev b) = rev b"
    by (rule dropWhile_fixed)
  from b have 2: "dropWhile is_white_space b = b"
    by (rule dropWhile_fixed)
  have "trim s = rev b" by (simp add: trim_def a_def b_def)
  moreover have "trim (rev b) = rev b" by (simp add: trim_def 1 2)
  ultimately show ?thesis by simp
qed

lemma parseCaptionsPayload_items:
  assumes "parseCaptionsPayload raw = Inr items"
  shows "length items = 5"
    and "\<forall>item\<in>set items. trim (item_text item) = item_text item \<and> trim (hashtags item) = hashtags item"
proof -
  from assms obtain xs where xs: "length xs = 5"
    and m: "map_throwing
       (\<lambda>item.
           if \<not> truthy (Some item)
              \<or> \<not> typeof_string (property item (str ''text''))
              \<or> \<not> typeof_string (property item (str ''hashtags''))
           then Inl (new_Error ''Invalid caption item'')
           else Inr \<lparr>item_text = trim (string_of (property item (str ''text''))),
                     hashtags = trim (string_of (property item (str ''hashtags'')))\<rparr>) xs = Inr items"
    by (auto simp: parseCaptionsPayload_def Let_def split: sum.splits if_splits)
  from map_throwing_length [OF m] xs show "length items = 5" by simp
  show "\<forall>item\<in>set items. trim (item_text item) = item_text item \<and> trim (hashtags item) = hashtags item"
  proof
    fix item assume "item \<in> set items"
    from map_throwing_results [OF m this] show "trim (item_text item) = item_text item \<and> trim (hashtags item) = hashtags item"
      by (auto simp: trim_trim split: if_splits)
  qed
qed

lemma parseBioPayload_items:
  assumes "parseBioPayload raw = Inr items"
  shows "length items = 3"
    and "\<forall>item\<in>set items. trim (bio_text item) = bio_text item"
proof -
  from assms obtain xs where xs: "length xs = 3"
    and m: "map_throwing
       (\<lambda>item.
           if \<not> truthy (Some item) \<or> \<not> typeof_string (property item (str ''text''))
           then Inl (new_Error ''Invalid bio item'')
           else Inr \<lparr>bio_text = trim (string_of (property item (str ''text'')))\<rparr>) xs = Inr items"
    by (auto simp: parseBioPayload_def Let_def split: sum.splits if_splits)
  from map_throwing_length [OF m] xs show "length items = 3" by simp
  show "\<forall>item\<in>set items. trim (bio_text item) = bio_text item"
  proof
    fix item assume "item \<in> set items"
    from map_throwing_results [OF m this] show "trim (bio_text item) = bio_text item"
      by (auto simp: trim_trim split: if_splits)
  qed
qed

lemma length_buildFallbackCaptions: "length buildFallbackCaptions = 5"
  by (simp add: buildFallbackCaptions_def)

lemma length_buildFallbackBios: "length buildFallbackBios = 3"
  by (simp add: buildFallbackBios_def)

section \<open>Properties of the handler\<close>

text \<open>The fixed responses of the handler, by name.\<close>

definition fallback_response :: "Mode \<Rightarrow> response" where
  "fallback_response mode =
     (case mode of
        Captions \<Rightarrow> NextResponse_json (Captions_body buildFallbackCaptions) 200
      | Bio \<Rightarrow> NextResponse_json (Bio_body buildFallbackBios) 200)"

definition credentials_failure :: response where
  "credentials_failure = NextResponse_json (Error_body (str ''Check your OpenAI credentials.'')) 500"

definition mode_of :: "form_data \<Rightarrow> Mode option" where
  \<comment> \<open>the mode a form asks for, if its \<^verbatim>\<open>mode\<close> field is one of the two\<close>
  "mode_of fd =
     (if formData_get fd (str ''mode'') = Some (Form_string (str ''captions'')) then Some Captions
      else if formData_get fd (str ''mode'') = Some (Form_string (str ''bio'')) then Some Bio
      else None)"

definition key_configured :: "env \<Rightarrow> bool" where
  \<comment> \<open>\<^verbatim>\<open>process.env.OPENAI_API_KEY\<close> is truthy\<close>
  "key_configured env \<longleftrightarrow> OPENAI_API_KEY env \<noteq> None \<and> OPENAI_API_KEY env \<noteq> Some []"

lemma captions_not_bio: "str ''captions'' \<noteq> str ''bio''"
  by (simp add: str_def)

lemma prepare_invalid_mode:
  "mode_of fd = None \<Longrightarrow> POST_prepare env fd = Respond invalid_input"
  by (simp add: POST_prepare_def mode_of_def split: if_splits)

lemma prepare_no_key:
  "mode_of fd = Some mode \<Longrightarrow> \<not> key_configured env \<Longrightarrow>
     POST_prepare env fd = Respond (fallback_response mode)"
  by (auto simp: POST_prepare_def mode_of_def key_configured_def fallback_response_def Let_def
      captions_not_bio split: if_splits)

lemma prepare_Respond:
  assumes "POST_prepare env fd = Respond r"
  shows "r = invalid_input \<or> (\<exists>mode. mode_of fd = Some mode \<and> \<not> key_configured env \<and> r = fallback_response mode)"
proof (cases "mode_of fd")
  case None
  with assms show ?thesis by (simp add: prepare_invalid_mode)
next
  case (Some mode)
  show ?thesis
  proof (cases "key_configured env")
    case False
    with Some assms show ?thesis by (simp add: prepare_no_key)
  next
    case True
    with Some assms have "r = invalid_input"
      by (simp add: POST_prepare_def mode_of_def key_configured_def Let_def
          split: if_splits option.splits form_value.splits)
    then show ?thesis ..
  qed
qed

lemma prepare_Generate_captions:
  "POST_prepare env fd = Generate_captions messages \<Longrightarrow>
     mode_of fd = Some Captions \<and> key_configured env"
  by (simp add: POST_prepare_def mode_of_def key_configured_def Let_def
      split: if_splits option.splits form_value.splits)

lemma prepare_Generate_bio:
  "POST_prepare env fd = Generate_bio messages \<Longrightarrow>
     mode_of fd = Some Bio \<and> key_configured env"
  by (simp add: POST_prepare_def mode_of_def key_configured_def Let_def captions_not_bio
      split: if_splits option.splits form_value.splits)

lemma callOpenAI_reply:
  assumes "callOpenAI P messages w = (Inr raw, w')"
  shows "\<exists>n. attempt_result (P n messages) = Inr raw"
proof -
  from callOpenAI_trace [OF assms] obtain k
    where "Inr raw = attempt_result (P (length (attempts w) + (k - 1)) messages)"
    by blast
  then have "attempt_result (P (length (attempts w) + (k - 1)) messages) = Inr raw"
    by (rule sym)
  then show ?thesis ..
qed

text \<open>
  The corrective re-prompt: when the first run of the gateway returned a reply that the
  parser rejects, the block runs the gateway once more, on the messages of the re-prompt,
  and its response is decided by that second run alone; it throws nothing.
\<close>

lemma generate_captions_reprompt:
  assumes "callOpenAI P messages w = (Inr raw, w1)" and "isl (parseCaptionsPayload raw)"
    and "callOpenAI P (captions_retryMessages messages raw) w1 = (r2, w2)"
  shows "generate_captions P messages w =
     (Inr (case r2 of
             Inl e \<Rightarrow> NextResponse_json (Captions_body buildFallbackCaptions) 200
           | Inr raw2 \<Rightarrow>
               (case parseCaptionsPayload raw2 of
                  Inl e \<Rightarrow> NextResponse_json (Captions_body buildFallbackCaptions) 200
                | Inr items \<Rightarrow> NextResponse_json (Captions_body items) 200)), w2)"
  using assms by (cases "parseCaptionsPayload raw") (auto simp: generate_captions_def split: sum.splits)

lemma generate_bio_reprompt:
  assumes "callOpenAI P messages w = (Inr raw, w1)" and "isl (parseBioPayload raw)"
    and "callOpenAI P (bio_retryMessages messages raw) w1 = (r2, w2)"
  shows "generate_bio P messages w =
     (Inr (case r2 of
             Inl e \<Rightarrow> NextResponse_json (Bio_body buildFallbackBios) 200
           | Inr raw2 \<Rightarrow>
               (case parseBioPayload raw2 of
                  Inl e \<Rightarrow> NextResponse_json (Bio_body buildFallbackBios) 200
                | Inr items \<Rightarrow> NextResponse_json (Bio_body items) 200)), w2)"
  using assms by (cases "parseBioPayload raw") (auto simp: generate_bio_def split: sum.splits)

lemma generate_captions_cases:
  assumes "generate_captions P messages w = (res, w')"
  shows "(\<exists>e. res = Inl e \<and> callOpenAI P messages w = (Inl e, w'))
     \<or> (\<exists>items. res = Inr (NextResponse_json (Captions_body items) 200)
           \<and> (items = buildFallbackCaptions \<or> (\<exists>raw n sent. attempt_result (P n sent) = Inr raw \<and> parseCaptionsPayload raw = Inr items)))"
proof (cases "callOpenAI P messages w")
  case (Pair r1 w1)
  show ?thesis
  proof (cases r1)
    case (Inl e)
    with Pair assms show ?thesis by (simp add: generate_captions_def)
  next
    case (Inr raw)
    show ?thesis
    proof (cases "parseCaptionsPayload raw")
      case (Inr items)
      from Pair \<open>r1 = Inr raw\<close> have "\<exists>n. attempt_result (P n messages) = Inr raw"
        by (auto dest: callOpenAI_reply)
      with Inr \<open>r1 = Inr raw\<close> Pair assms show ?thesis
        by (auto simp: generate_captions_def)
    next
      case (Inl e)
      obtain r2 w2 where second: "callOpenAI P (captions_retryMessages messages raw) w1 = (r2, w2)"
        by (cases "callOpenAI P (captions_retryMessages messages raw) w1")
      have "\<exists>n. attempt_result (P n (captions_retryMessages messages raw)) = Inr raw2" if "r2 = Inr raw2" for raw2
        using second that by (auto dest: callOpenAI_reply)
      with second Inl \<open>r1 = Inr raw\<close> Pair assms show ?thesis
        by (auto simp: generate_captions_def split: sum.splits)
    qed
  qed
qed

lemma generate_bio_cases:
  assumes "generate_bio P messages w = (res, w')"
  shows "(\<exists>e. res = Inl e \<and> callOpenAI P messages w = (Inl e, w'))
     \<or> (\<exists>items. res = Inr (NextResponse_json (Bio_body items) 200)
           \<and> (items = buildFallbackBios \<or> (\<exists>raw n sent. attempt_result (P n sent) = Inr raw \<and> parseBioPayload raw = Inr items)))"
proof (cases "callOpenAI P messages w")
  case (Pair r1 w1)
  show ?thesis
  proof (cases r1)
    case (Inl e)
    with Pair assms show ?thesis by (simp add: generate_bio_def)
  next
    case (Inr raw)
    show ?thesis
    proof (cases "parseBioPayload raw")
      case (Inr items)
      from Pair \<open>r1 = Inr raw\<close> have "\<exists>n. attempt_result (P n messages) = Inr raw"
        by (auto dest: callOpenAI_reply)
      with Inr \<open>r1 = Inr raw\<close> Pair assms show ?thesis
        by (auto simp: generate_bio_def)
    next
      case (Inl e)
      obtain r2 w2 where second: "callOpenAI P (bio_retryMessages messages raw) w1 = (r2, w2)"
        by (cases "callOpenAI P (bio_retryMessages messages raw) w1")
      have "\<exists>n. attempt_result (P n (bio_retryMessages messages raw)) = Inr raw2" if "r2 = Inr raw2" for raw2
        using second that by (auto dest: callOpenAI_reply)
      with second Inl \<open>r1 = Inr raw\<close> Pair assms show ?thesis
        by (auto simp: generate_bio_def split: sum.splits)
    qed
  qed
qed

lemma status_simps:
  "status invalid_input = 400" "status (fallback_response mode) = 200"
  "status credentials_failure = 500" "status (NextResponse_json b s) = s"
  by (cases mode; simp add: invalid_input_def fallback_response_def credentials_failure_def
      NextResponse_json_def)+

lemma body_simps:
  "body (fallback_response Captions) = Captions_body buildFallbackCaptions"
  "body (fallback_response Bio) = Bio_body buildFallbackBios"
  "body (NextResponse_json b s) = b"
  by (simp_all add: fallback_response_def NextResponse_json_def)

lemma POST_catch_mode:
  "POST_catch (Some mode) e =
     (if instanceof_APIError e \<and> error_status e \<noteq> Some 429
         \<and> (error_status e = Some 401 \<or> error_status e = Some 403)
      then credentials_failure else fallback_response mode)"
  by (cases mode) (auto simp: POST_catch_def credentials_failure_def fallback_response_def Let_def)

lemma POST_catch_mode_ok:
  "status (POST_catch (Some mode) e) = 200 \<Longrightarrow> POST_catch (Some mode) e = fallback_response mode"
  by (auto simp: POST_catch_mode status_simps split: if_splits)

lemma POST_catch_no_mode:
  "POST_catch None (new_Error m) = NextResponse_json (Error_body (str ''Something went wrong'')) 500"
  by (simp add: POST_catch_def new_Error_def instanceof_APIError_def Let_def)

text \<open>
  Every response of status 200: the form has one of the two modes, and the body carries
  the items of that mode, which are the fallback catalogue or what a payload parser
  accepted.
\<close>

lemma POST_ok_cases:
  assumes "POST env P request w = (resp, w')" and "status resp = 200"
  shows "\<exists>fd. request = Form fd \<and>
     ((mode_of fd = Some Captions
         \<and> (\<exists>items. body resp = Captions_body items
               \<and> (items = buildFallbackCaptions \<or> (\<exists>raw n sent. attempt_result (P n sent) = Inr raw \<and> parseCaptionsPayload raw = Inr items))))
      \<or> (mode_of fd = Some Bio
         \<and> (\<exists>items. body resp = Bio_body items
               \<and> (items = buildFallbackBios \<or> (\<exists>raw n sent. attempt_result (P n sent) = Inr raw \<and> parseBioPayload raw = Inr items)))))"
proof (cases request)
  case Unreadable
  with assms have "resp = NextResponse_json (Error_body (str ''Something went wrong'')) 500"
    by (auto simp: POST_def formData_def POST_catch_no_mode)
  with assms(2) have False
    by (simp add: status_simps)
  then show ?thesis ..
next
  case (Form fd)
  have known: ?thesis if "resp = fallback_response mode" "mode_of fd = Some mode" for mode
    using that Form by (cases mode) (auto simp: body_simps)
  show ?thesis
  proof (cases "POST_prepare env fd")
    case (Respond r)
    with assms Form have "resp = r" by (simp add: POST_def formData_def)
    with prepare_Respond [OF Respond] assms(2) known show ?thesis
      by (auto simp: status_simps)
  next
    case (Generate_captions messages)
    note mode = prepare_Generate_captions [OF this]
    obtain res w1 where gen: "generate_captions P messages w = (res, w1)"
      by (cases "generate_captions P messages w")
    from generate_captions_cases [OF gen] consider
      (thrown) e where "res = Inl e"
      | (items) items where "res = Inr (NextResponse_json (Captions_body items) 200)"
          "items = buildFallbackCaptions \<or> (\<exists>raw n sent. attempt_result (P n sent) = Inr raw \<and> parseCaptionsPayload raw = Inr items)"
      by blast
    then show ?thesis
    proof cases
      case thrown
      with assms Form Generate_captions gen have "resp = POST_catch (Some Captions) e"
        by (simp add: POST_def formData_def)
      with assms(2) POST_catch_mode_ok [of Captions e] have "resp = fallback_response Captions"
        by simp
      with mode known show ?thesis by blast
    next
      case items
      with assms Form Generate_captions gen have "body resp = Captions_body items"
        by (auto simp: POST_def formData_def body_simps)
      with mode items(2) Form show ?thesis by blast
    qed
  next
    case (Generate_bio messages)
    note mode = prepare_Generate_bio [OF this]
    obtain res w1 where gen: "generate_bio P messages w = (res, w1)"
      by (cases "generate_bio P messages w")
    from generate_bio_cases [OF gen] consider
      (thrown) e where "res = Inl e"
      | (items) items where "res = Inr (NextResponse_json (Bio_body items) 200)"
          "items = buildFallbackBios \<or> (\<exists>raw n sent. attempt_result (P n sent) = Inr raw \<and> parseBioPayload raw = Inr items)"
      by blast
    then show ?thesis
    proof cases
      case thrown
      with assms Form Generate_bio gen have "resp = POST_catch (Some Bio) e"
        by (simp add: POST_def formData_def)
      with assms(2) POST_catch_mode_ok [of Bio e] have "resp = fallback_response Bio"
        by simp
      with mode known show ?thesis by blast
    next
      case items
      with assms Form Generate_bio gen have "body resp = Bio_body items"
        by (auto simp: POST_def formData_def body_simps)
      with mode items(2) Form show ?thesis by blast
    qed
  qed
qed

section \<open>Sample requests and provider behaviours\<close>

definition env_with_key :: env where
  "env_with_key = \<lparr>OPENAI_API_KEY = Some (str ''sk-test'')\<rparr>"

definition env_empty_key :: env where
  \<comment> \<open>the variable is set, to the empty string\<close>
  "env_empty_key = \<lparr>OPENAI_API_KEY = Some []\<rparr>"

definition env_key_unset :: env where
  \<comment> \<open>the variable is not set: the module does not load, see \<open>route\<close>\<close>
  "env_key_unset = \<lparr>OPENAI_API_KEY = None\<rparr>"

definition png :: File where
  "png = \<lparr>file_type = str ''image/png'', file_bytes = [0x89, 0x50, 0x4E, 0x47]\<rparr>"

definition captions_form :: form_data where
  "captions_form =
     [(str ''mode'', Form_string (str ''captions'')),
      (str ''tone'', Form_string (str ''Funny'')),
      (str ''guidance'', Form_string (str '' launch day '')),
      (str ''image'', Form_file png)]"

definition bio_form :: form_data where
  "bio_form =
     [(str ''mode'', Form_string (str ''bio'')),
      (str ''guidance'', Form_string (str ''We bake bread every morning.''))]"

definition weather_form :: form_data where
  "weather_form = [(str ''mode'', Form_string (str ''weather''))]"

definition empty_captions :: jsstring where
  \<open>empty_captions = str ''{"items":[{"text":"","hashtags":" "},{"text":"","hashtags":""},'' @
     str ''{"text":"","hashtags":""},{"text":"","hashtags":""},{"text":"","hashtags":""}]}''\<close>

definition provider_empty_captions :: provider where
  "provider_empty_captions n messages = Resolved (Content_string empty_captions)"

definition provider_garbage :: provider where
  "provider_garbage n messages = Resolved (Content_string (str ''Sure! Here are your captions.''))"

definition provider_unauthorized :: provider where
  "provider_unauthorized n messages = Rejected unauthorized"

lemmas prepare_eval =
  POST_prepare_def formData_get_def maxChars_rejected_def toLowerCase_def trim_def
  is_white_space_def allowedTones_def str_def maxCaptionGuidanceLength_def
  minBioGuidanceLength_def maxBioGuidanceLength_def maxCharsMin_def maxCharsMax_def
  isInteger_def invalid_input_def NextResponse_json_def Let_def

lemmas json_eval =
  JSON_parse_def json_tokens.simps parse_value.simps parse_elements.simps parse_members.simps
  scan_json_number_def simple_escape_def is_hex_digit_def
  str_def is_digit_def digit_value_def digits_value_def scan_exponent_def
  round_double_def binade_def bit_length_numeral round_half_even_def Let_def

lemmas payload_eval =
  parseCaptionsPayload_def parseBioPayload_def property_def truthy_def isArray_def
  elements_def typeof_string_def string_of_def trim_def is_white_space_def new_Error_def

lemma prepare_captions_form:
  "POST_prepare env_with_key captions_form =
     Generate_captions (captions_messages (str ''funny'') None (str ''launch day'') png)"
  by (simp add: prepare_eval env_with_key_def captions_form_def png_def)

lemma prepare_bio_form:
  "POST_prepare env_with_key bio_form =
     Generate_bio (bio_messages (str ''classy'') None (str ''We bake bread every morning.''))"
  by (simp add: prepare_eval env_with_key_def bio_form_def)

lemma parse_empty_captions:
  "parseCaptionsPayload empty_captions =
     Inr [\<lparr>item_text = [], hashtags = []\<rparr>, \<lparr>item_text = [], hashtags = []\<rparr>,
          \<lparr>item_text = [], hashtags = []\<rparr>, \<lparr>item_text = [], hashtags = []\<rparr>,
          \<lparr>item_text = [], hashtags = []\<rparr>]"
  by (simp add: empty_captions_def json_eval payload_eval)

lemma parse_garbage:
  "parseCaptionsPayload (str ''Sure! Here are your captions.'') = Inl (new_Error ''SyntaxError'')"
  "parseBioPayload (str ''Sure! Here are your captions.'') = Inl (new_Error ''SyntaxError'')"
  by (simp_all add: json_eval payload_eval)

lemma mode_of_fields:
  "mode_of fd = Some Captions \<Longrightarrow> formData_get fd (str ''mode'') = Some (Form_string (str ''captions''))"
  "mode_of fd = Some Bio \<Longrightarrow> formData_get fd (str ''mode'') = Some (Form_string (str ''bio''))"
  by (simp_all add: mode_of_def split: if_splits)

lemma payload_facts:
  "empty_captions \<noteq> []" "trim empty_captions = empty_captions"
  "trim (str ''Sure! Here are your captions.'') = str ''Sure! Here are your captions.''"
  by (simp_all add: empty_captions_def trim_def str_def is_white_space_def)

lemmas run_eval =
  POST_def formData_def generate_captions_def generate_bio_def callOpenAI_def
  callOpenAI_loop.simps create_def attempt_result_def completion_text_def
  MAX_OPENAI_ATTEMPTS_def world0_def payload_facts

lemma run_empty_captions:
  "POST env_with_key provider_empty_captions (Form captions_form) world0 =
     (\<lparr>status = 200, body = Captions_body
         [\<lparr>item_text = [], hashtags = []\<rparr>, \<lparr>item_text = [], hashtags = []\<rparr>,
          \<lparr>item_text = [], hashtags = []\<rparr>, \<lparr>item_text = [], hashtags = []\<rparr>,
          \<lparr>item_text = [], hashtags = []\<rparr>]\<rparr>,
      \<lparr>attempts = [captions_messages (str ''funny'') None (str ''launch day'') png], sleeps = [],
       gateway_calls = [captions_messages (str ''funny'') None (str ''launch day'') png]\<rparr>)"
  by (simp add: run_eval prepare_captions_form parse_empty_captions provider_empty_captions_def
      NextResponse_json_def)

text \<open>
  Claim C1. Whenever the handler answers with status 200, the request carried a form
  whose mode is one of the two, and the body carries the items of that mode: exactly
  five captions (each a pair of the strings \<open>item_text\<close> and \<open>hashtags\<close>) in captions mode,
  exactly three bios (each a string \<open>bio_text\<close>) in bio mode. This covers the responses
  built from a provider reply, the fallback after a failed re-prompt, the fallback of the
  \<^verbatim>\<open>catch\<close> block and the fallback for a missing API key.
\<close>

theorem response_shape:
  assumes "POST env P request w = (resp, w')" and "status resp = 200"
  shows "\<exists>fd. request = Form fd \<and>
     ((formData_get fd (str ''mode'') = Some (Form_string (str ''captions''))
         \<and> (\<exists>items. body resp = Captions_body items \<and> length items = 5))
      \<or> (formData_get fd (str ''mode'') = Some (Form_string (str ''bio''))
         \<and> (\<exists>items. body resp = Bio_body items \<and> length items = 3)))"
proof -
  from POST_ok_cases [OF assms] obtain fd where fd: "request = Form fd"
    and cases: "(mode_of fd = Some Captions
         \<and> (\<exists>items. body resp = Captions_body items
               \<and> (items = buildFallbackCaptions \<or> (\<exists>raw n sent. attempt_result (P n sent) = Inr raw \<and> parseCaptionsPayload raw = Inr items))))
      \<or> (mode_of fd = Some Bio
         \<and> (\<exists>items. body resp = Bio_body items
               \<and> (items = buildFallbackBios \<or> (\<exists>raw n sent. attempt_result (P n sent) = Inr raw \<and> parseBioPayload raw = Inr items))))"
    by blast
  from cases show ?thesis
  proof
    assume "mode_of fd = Some Captions
         \<and> (\<exists>items. body resp = Captions_body items
               \<and> (items = buildFallbackCaptions \<or> (\<exists>raw n sent. attempt_result (P n sent) = Inr raw \<and> parseCaptionsPayload raw = Inr items)))"
    then obtain items where "mode_of fd = Some Captions" "body resp = Captions_body items"
      "length items = 5"
      using length_buildFallbackCaptions parseCaptionsPayload_items(1) by blast
    with fd mode_of_fields(1) show ?thesis by blast
  next
    assume "mode_of fd = Some Bio
         \<and> (\<exists>items. body resp = Bio_body items
               \<and> (items = buildFallbackBios \<or> (\<exists>raw n sent. attempt_result (P n sent) = Inr raw \<and> parseBioPayload raw = Inr items)))"
    then obtain items where "mode_of fd = Some Bio" "body resp = Bio_body items"
      "length items = 3"
      using length_buildFallbackBios parseBioPayload_items(1) by blast
    with fd mode_of_fields(2) show ?thesis by blast
  qed
qed

theorem response_shape_witness:
  "\<exists>fd. Form captions_form = Form fd \<and>
     ((formData_get fd (str ''mode'') = Some (Form_string (str ''captions''))
         \<and> (\<exists>items. Captions_body
               [\<lparr>item_text = [], hashtags = []\<rparr>, \<lparr>item_text = [], hashtags = []\<rparr>,
                \<lparr>item_text = [], hashtags = []\<rparr>, \<lparr>item_text = [], hashtags = []\<rparr>,
                \<lparr>item_text = [], hashtags = []\<rparr>] = Captions_body items \<and> length items = 5))
      \<or> (formData_get fd (str ''mode'') = Some (Form_string (str ''bio''))
         \<and> (\<exists>items. Captions_body
               [\<lparr>item_text = [], hashtags = []\<rparr>, \<lparr>item_text = [], hashtags = []\<rparr>,
                \<lparr>item_text = [], hashtags = []\<rparr>, \<lparr>item_text = [], hashtags = []\<rparr>,
                \<lparr>item_text = [], hashtags = []\<rparr>] = Bio_body items \<and> length items = 3)))"
  using response_shape [OF run_empty_captions] by simp

definition captions_39_form :: form_data where
  "captions_39_form =
     [(str ''mode'', Form_string (str ''captions'')), (str ''maxChars'', Form_string (str ''39''))]"

definition bio_39_form :: form_data where
  "bio_39_form =
     [(str ''mode'', Form_string (str ''bio'')), (str ''maxChars'', Form_string (str ''39''))]"

lemma mode_of_samples:
  "mode_of captions_form = Some Captions" "mode_of bio_form = Some Bio"
  "mode_of captions_39_form = Some Captions" "mode_of bio_39_form = Some Bio"
  "mode_of weather_form = None"
  by (simp_all add: mode_of_def formData_get_def captions_form_def bio_form_def
      captions_39_form_def bio_39_form_def weather_form_def str_def)

text \<open>
  Claim C9. A form whose \<^verbatim>\<open>mode\<close> field is neither the string \<^verbatim>\<open>captions\<close> nor the
  string \<^verbatim>\<open>bio\<close> (a missing field and a file included) is answered with status 400
  and the body \<^verbatim>\<open>{ error: "Invalid input" }\<close>, and the world is left as it was: no call
  of the gateway, no provider call, no sleep.
\<close>

theorem invalid_mode_rejected:
  assumes "formData_get fd (str ''mode'') \<noteq> Some (Form_string (str ''captions''))"
    and "formData_get fd (str ''mode'') \<noteq> Some (Form_string (str ''bio''))"
  shows "POST env P (Form fd) w = (\<lparr>status = 400, body = Error_body (str ''Invalid input'')\<rparr>, w)"
proof -
  from assms have "mode_of fd = None"
    by (simp add: mode_of_def)
  then have "POST_prepare env fd = Respond invalid_input"
    by (rule prepare_invalid_mode)
  then show ?thesis
    by (simp add: POST_def formData_def invalid_input_def NextResponse_json_def)
qed

theorem invalid_mode_rejected_witness:
  "POST env_with_key provider_empty_captions (Form weather_form) world0 =
     (\<lparr>status = 400, body = Error_body (str ''Invalid input'')\<rparr>, world0)
   \<and> attempts world0 = []"
proof -
  have "formData_get weather_form (str ''mode'') \<noteq> Some (Form_string (str ''captions''))"
    and "formData_get weather_form (str ''mode'') \<noteq> Some (Form_string (str ''bio''))"
    by (simp_all add: formData_get_def weather_form_def str_def)
  from invalid_mode_rejected [OF this] show ?thesis
    by (simp add: world0_def)
qed

lemma formData_get_filter:
  "formData_get (filter (\<lambda>entry. fst entry \<noteq> k) fd) name =
     (if name = k then None else formData_get fd name)"
  by (induction fd) (auto simp: formData_get_def)

text \<open>
  Claim C10. In bio mode a \<^verbatim>\<open>tone\<close> field that is the empty string behaves as no
  \<^verbatim>\<open>tone\<close> field at all: the handler does with the form what it does with the form
  stripped of its \<^verbatim>\<open>tone\<close> entries (same response, same calls), and when the request
  gets as far as a prompt, the prompt is the bio prompt for the tone \<^verbatim>\<open>classy\<close>.
\<close>

theorem bio_empty_tone_is_classy:
  assumes "formData_get fd (str ''mode'') = Some (Form_string (str ''bio''))"
    and "formData_get fd (str ''tone'') = Some (Form_string [])"
  shows "POST env P (Form fd) w = POST env P (Form (filter (\<lambda>entry. fst entry \<noteq> str ''tone'') fd)) w
     \<and> POST_prepare env fd = POST_prepare env (filter (\<lambda>entry. fst entry \<noteq> str ''tone'') fd)
     \<and> (\<forall>messages. POST_prepare env fd = Generate_bio messages \<longrightarrow>
           (\<exists>maxChars guidance. messages = bio_messages (str ''classy'') maxChars guidance))
     \<and> (\<forall>messages. POST_prepare env fd \<noteq> Generate_captions messages)"
proof -
  let ?fd' = "filter (\<lambda>entry. fst entry \<noteq> str ''tone'') fd"
  have other: "formData_get ?fd' (str ''mode'') = formData_get fd (str ''mode'')"
    "formData_get ?fd' (str ''guidance'') = formData_get fd (str ''guidance'')"
    "formData_get ?fd' (str ''maxChars'') = formData_get fd (str ''maxChars'')"
    "formData_get ?fd' (str ''image'') = formData_get fd (str ''image'')"
    "formData_get ?fd' (str ''tone'') = None"
    by (simp_all add: formData_get_filter) (simp_all add: str_def)
  have same: "POST_prepare env fd = POST_prepare env ?fd'"
    unfolding POST_prepare_def other Let_def
    by (simp add: assms toLowerCase_def captions_not_bio)
  have classy: "\<exists>maxChars guidance. messages = bio_messages (str ''classy'') maxChars guidance"
    if "POST_prepare env fd = Generate_bio messages" for messages
    using that unfolding POST_prepare_def Let_def
    by (auto simp: assms toLowerCase_def captions_not_bio split: if_splits)
  have "POST_prepare env fd \<noteq> Generate_captions messages" for messages
    using prepare_Generate_captions [of env fd messages] assms(1)
    by (auto simp: mode_of_def captions_not_bio captions_not_bio [symmetric])
  with same classy show ?thesis
    by (simp add: POST_def formData_def)
qed

definition bio_form_empty_tone :: form_data where
  "bio_form_empty_tone = bio_form @ [(str ''tone'', Form_string [])]"

theorem bio_empty_tone_is_classy_witness:
  "POST env_with_key provider_garbage (Form bio_form_empty_tone) world0 =
     POST env_with_key provider_garbage (Form bio_form) world0
   \<and> POST_prepare env_with_key bio_form_empty_tone =
       Generate_bio (bio_messages (str ''classy'') None (str ''We bake bread every morning.''))"
proof -
  have 1: "formData_get bio_form_empty_tone (str ''mode'') = Some (Form_string (str ''bio''))"
    and 2: "formData_get bio_form_empty_tone (str ''tone'') = Some (Form_string [])"
    and 3: "filter (\<lambda>entry. fst entry \<noteq> str ''tone'') bio_form_empty_tone = bio_form"
    by (simp_all add: bio_form_empty_tone_def bio_form_def formData_get_def str_def)
  from bio_empty_tone_is_classy [OF 1 2, of env_with_key provider_garbage world0]
  show ?thesis
    by (simp add: 3 prepare_bio_form)
qed

lemma error_bodies_differ:
  "str ''Something went wrong'' \<noteq> str ''Check your OpenAI credentials.''"
  "str ''Invalid input'' \<noteq> str ''Check your OpenAI credentials.''"
  by (simp_all add: str_def)

lemma credentials_failure_distinct:
  "credentials_failure \<noteq> invalid_input" "credentials_failure \<noteq> fallback_response mode"
  "NextResponse_json b 200 \<noteq> credentials_failure"
proof -
  have "status credentials_failure \<noteq> status invalid_input"
    and "status credentials_failure \<noteq> status (fallback_response mode)"
    and "status (NextResponse_json b 200) \<noteq> status credentials_failure"
    by (simp_all add: status_simps)
  then show "credentials_failure \<noteq> invalid_input" "credentials_failure \<noteq> fallback_response mode"
    "NextResponse_json b 200 \<noteq> credentials_failure"
    by auto
qed

lemma run_unauthorized:
  "callOpenAI provider_unauthorized messages world0 =
     (Inl unauthorized, \<lparr>attempts = [messages], sleeps = [], gateway_calls = [messages]\<rparr>)"
  by (simp add: gateway_eval provider_unauthorized_def unauthorized_def)

lemma unauthorized_facts:
  "instanceof_APIError unauthorized" "error_status unauthorized = Some 401"
  by (simp_all add: unauthorized_def instanceof_APIError_def)

text \<open>
  Claim C3, as stated, fails: a captions request that passes validation, so that the mode
  is known, and whose first provider call is refused with status 401 is answered with the
  credentials response at status 500, not with fallback content.
\<close>

theorem credentials_failure_with_known_mode:
  "mode_of captions_form = Some Captions
   \<and> POST env_with_key provider_unauthorized (Form captions_form) world0 =
       (\<lparr>status = 500, body = Error_body (str ''Check your OpenAI credentials.'')\<rparr>,
        \<lparr>attempts = [captions_messages (str ''funny'') None (str ''launch day'') png],
         sleeps = [],
         gateway_calls = [captions_messages (str ''funny'') None (str ''launch day'') png]\<rparr>)"
  by (simp add: mode_of_samples POST_def formData_def prepare_captions_form generate_captions_def
      run_unauthorized POST_catch_mode unauthorized_facts credentials_failure_def
      NextResponse_json_def)

lemma route_loaded:
  "OPENAI_API_KEY env = Some key \<Longrightarrow> route env P request w = Inr (POST env P request w)"
  by (simp add: route_def module_load_def new_OpenAI_def)

lemma route_not_loaded:
  "OPENAI_API_KEY env = None \<Longrightarrow> route env P request w = Inl (new_Error ''OpenAIError'')"
  by (simp add: route_def module_load_def new_OpenAI_def)

text \<open>
  Claim C6. The guard of the handler (lines 228 to 237) answers a request that has one of
  the two modes with the fallback catalogue of that mode at status 200 whenever the key is
  falsy, before the first call of the gateway and with the world left as it was. Of the
  two falsy states only the empty string gets there. When \<^verbatim>\<open>OPENAI_API_KEY\<close> is set to
  the empty string the route does what the claim says. When the variable is not set at
  all, the construction of the client at the top of the module throws, the module does not
  load, and the route ends in that error for every request: no fallback content is served.
\<close>

theorem key_absent_behaviour:
  assumes "mode_of fd = Some mode"
  shows "(OPENAI_API_KEY env = Some [] \<longrightarrow>
            route env P (Form fd) w = Inr (fallback_response mode, w)
          \<and> POST env P (Form fd) w = (fallback_response mode, w)
          \<and> POST_prepare env fd = Respond (fallback_response mode))
     \<and> (OPENAI_API_KEY env = None \<longrightarrow>
            route env P (Form fd) w = Inl (new_Error ''OpenAIError''))
     \<and> status (fallback_response mode) = 200
     \<and> body (fallback_response mode) =
         (case mode of Captions \<Rightarrow> Captions_body buildFallbackCaptions | Bio \<Rightarrow> Bio_body buildFallbackBios)"
proof (intro conjI impI)
  assume empty: "OPENAI_API_KEY env = Some []"
  then have "\<not> key_configured env"
    by (simp add: key_configured_def)
  with assms show prep: "POST_prepare env fd = Respond (fallback_response mode)"
    by (rule prepare_no_key)
  then show post: "POST env P (Form fd) w = (fallback_response mode, w)"
    by (simp add: POST_def formData_def)
  from empty have "route env P (Form fd) w = Inr (POST env P (Form fd) w)"
    by (rule route_loaded)
  with post show "route env P (Form fd) w = Inr (fallback_response mode, w)"
    by simp
next
  assume "OPENAI_API_KEY env = None"
  then show "route env P (Form fd) w = Inl (new_Error ''OpenAIError'')"
    by (rule route_not_loaded)
next
  show "status (fallback_response mode) = 200"
    by (simp add: status_simps)
  show "body (fallback_response mode) =
      (case mode of Captions \<Rightarrow> Captions_body buildFallbackCaptions | Bio \<Rightarrow> Bio_body buildFallbackBios)"
    by (cases mode) (simp_all add: body_simps)
qed

theorem key_absent_behaviour_witness:
  "route env_key_unset provider_unauthorized (Form captions_39_form) world0 =
     Inl (new_Error ''OpenAIError'')
   \<and> route env_empty_key provider_unauthorized (Form captions_39_form) world0 =
       Inr (fallback_response Captions, world0)
   \<and> POST_prepare env_empty_key captions_39_form = Respond (fallback_response Captions)
   \<and> status (fallback_response Captions) = 200
   \<and> body (fallback_response Captions) = Captions_body buildFallbackCaptions"
proof -
  have unset: "OPENAI_API_KEY env_key_unset = None"
    and empty: "OPENAI_API_KEY env_empty_key = Some []"
    by (simp_all add: env_key_unset_def env_empty_key_def)
  from key_absent_behaviour [OF mode_of_samples(3), of env_key_unset provider_unauthorized world0]
    key_absent_behaviour [OF mode_of_samples(3), of env_empty_key provider_unauthorized world0]
    unset empty
  show ?thesis by simp
qed

lemma maxChars_rejected_iff:
  "maxChars_rejected (Some n) \<longleftrightarrow> \<not> (\<exists>k::int. 40 \<le> k \<and> k \<le> 220 \<and> n = Fin (of_int k))"
proof (cases n)
  case (Fin q)
  show ?thesis
  proof (cases "of_int \<lfloor>q\<rfloor> = q")
    case True
    then have "q = of_int \<lfloor>q\<rfloor>" by (rule sym)
    then have "(\<exists>k::int. 40 \<le> k \<and> k \<le> 220 \<and> q = of_int k) \<longleftrightarrow> 40 \<le> \<lfloor>q\<rfloor> \<and> \<lfloor>q\<rfloor> \<le> 220"
      by (metis floor_of_int)
    moreover have "40 \<le> \<lfloor>q\<rfloor> \<longleftrightarrow> \<not> q < 40" "\<lfloor>q\<rfloor> \<le> 220 \<longleftrightarrow> \<not> 220 < q"
      using True by linarith+
    ultimately show ?thesis
      using True Fin by (simp add: maxChars_rejected_def isInteger_def maxCharsMin_def maxCharsMax_def)
  next
    case False
    then have "\<not> (\<exists>k::int. 40 \<le> k \<and> k \<le> 220 \<and> q = of_int k)"
      by auto
    with False Fin show ?thesis
      by (simp add: maxChars_rejected_def isInteger_def)
  qed
qed (simp_all add: maxChars_rejected_def isInteger_def)

lemma Number_39: "Number (str ''39'') = Fin 39"
  by (simp add: number_eval)

lemma Number_220: "Number (str ''220'') = Fin 220"
  by (simp add: number_eval)

lemma prepare_maxChars_rejected:
  assumes "key_configured env" and "mode_of fd = Some mode"
    and "formData_get fd (str ''maxChars'') = Some (Form_string m)" and "m \<noteq> []"
    and "maxChars_rejected (Some (Number m))"
  shows "POST_prepare env fd = Respond invalid_input"
  using assms
  by (auto simp: POST_prepare_def key_configured_def mode_of_def Let_def split: if_splits)

lemma sample_maxChars:
  "formData_get captions_39_form (str ''maxChars'') = Some (Form_string (str ''39''))"
  "formData_get bio_39_form (str ''maxChars'') = Some (Form_string (str ''39''))"
  "formData_get bio_39_form (str ''mode'') = Some (Form_string (str ''bio''))"
  by (simp_all add: captions_39_form_def bio_39_form_def formData_get_def str_def)

text \<open>
  Claim C4, as stated, fails: the rejection is not unconditional. When \<^verbatim>\<open>OPENAI_API_KEY\<close>
  is set to the empty string the module loads and the handler answers before it looks at
  \<^verbatim>\<open>maxChars\<close>: a bio request whose \<^verbatim>\<open>maxChars\<close> is the string \<^verbatim>\<open>39\<close>, which
  converts to 39, gets the fallback bios at status 200.
\<close>

theorem maxChars_39_with_empty_key:
  "formData_get bio_39_form (str ''mode'') = Some (Form_string (str ''bio''))
   \<and> formData_get bio_39_form (str ''maxChars'') = Some (Form_string (str ''39''))
   \<and> Number (str ''39'') = Fin 39
   \<and> OPENAI_API_KEY env_empty_key = Some []
   \<and> route env_empty_key provider_unauthorized (Form bio_39_form) world0 =
       Inr (\<lparr>status = 200, body = Bio_body buildFallbackBios\<rparr>, world0)
   \<and> POST env_empty_key provider_unauthorized (Form bio_39_form) world0 =
       (\<lparr>status = 200, body = Bio_body buildFallbackBios\<rparr>, world0)"
proof -
  have empty: "OPENAI_API_KEY env_empty_key = Some []"
    by (simp add: env_empty_key_def)
  then have "\<not> key_configured env_empty_key"
    by (simp add: key_configured_def)
  with mode_of_samples(4) have "POST_prepare env_empty_key bio_39_form = Respond (fallback_response Bio)"
    by (rule prepare_no_key)
  then have "POST env_empty_key provider_unauthorized (Form bio_39_form) world0 =
      (\<lparr>status = 200, body = Bio_body buildFallbackBios\<rparr>, world0)"
    by (simp add: POST_def formData_def fallback_response_def NextResponse_json_def)
  with empty show ?thesis
    by (simp add: route_loaded [OF empty] sample_maxChars Number_39)
qed

text \<open>
  Claim C4, amended. Let the module have loaded, so that \<^verbatim>\<open>OPENAI_API_KEY\<close> is a string,
  and let the request have one of the two modes and a \<^verbatim>\<open>maxChars\<close> field that is a
  non-empty string. If the key is not empty and \<^verbatim>\<open>Number\<close> does not convert the field to
  an integer from 40 to 220, the answer is status 400 with the body
  \<^verbatim>\<open>{ error: "Invalid input" }\<close>, in either mode and with no call made. If the key is the
  empty string, the answer is the fallback catalogue of the mode at status 200, whatever
  the field holds. The test of the handler rejects exactly the values that are no integer
  from 40 to 220, so \<^verbatim>\<open>39\<close> is rejected and \<^verbatim>\<open>220\<close> passes it.
\<close>

theorem maxChars_validated:
  assumes "OPENAI_API_KEY env = Some key" and "mode_of fd = Some mode"
    and "formData_get fd (str ''maxChars'') = Some (Form_string m)" and "m \<noteq> []"
  shows "(key \<noteq> [] \<and> \<not> (\<exists>k::int. 40 \<le> k \<and> k \<le> 220 \<and> Number m = Fin (of_int k)) \<longrightarrow>
            route env P (Form fd) w =
              Inr (\<lparr>status = 400, body = Error_body (str ''Invalid input'')\<rparr>, w))
     \<and> (key = [] \<longrightarrow>
            route env P (Form fd) w = Inr (fallback_response mode, w)
          \<and> status (fallback_response mode) = 200)
     \<and> (maxChars_rejected (Some (Number m)) \<longleftrightarrow>
            \<not> (\<exists>k::int. 40 \<le> k \<and> k \<le> 220 \<and> Number m = Fin (of_int k)))
     \<and> maxChars_rejected (Some (Number (str ''39'')))
     \<and> \<not> maxChars_rejected (Some (Number (str ''220'')))"
proof (intro conjI impI)
  note loaded = route_loaded [OF assms(1)]
  {
    assume "key \<noteq> [] \<and> \<not> (\<exists>k::int. 40 \<le> k \<and> k \<le> 220 \<and> Number m = Fin (of_int k))"
    then have "key_configured env" and "maxChars_rejected (Some (Number m))"
      using assms(1) by (simp_all add: key_configured_def maxChars_rejected_iff)
    with assms have "POST_prepare env fd = Respond invalid_input"
      by (simp add: prepare_maxChars_rejected)
    then show "route env P (Form fd) w =
        Inr (\<lparr>status = 400, body = Error_body (str ''Invalid input'')\<rparr>, w)"
      by (simp add: loaded POST_def formData_def invalid_input_def NextResponse_json_def)
  }
  {
    assume "key = []"
    with assms(1) have "\<not> key_configured env"
      by (simp add: key_configured_def)
    with assms(2) have "POST_prepare env fd = Respond (fallback_response mode)"
      by (rule prepare_no_key)
    then show "route env P (Form fd) w = Inr (fallback_response mode, w)"
      by (simp add: loaded POST_def formData_def)
    show "status (fallback_response mode) = 200"
      by (simp add: status_simps)
  }
  show "maxChars_rejected (Some (Number m)) \<longleftrightarrow>
      \<not> (\<exists>k::int. 40 \<le> k \<and> k \<le> 220 \<and> Number m = Fin (of_int k))"
    by (rule maxChars_rejected_iff)
  have "\<not> (\<exists>k::int. 40 \<le> k \<and> k \<le> 220 \<and> (39::real) = of_int k)"
  proof
    assume "\<exists>k::int. 40 \<le> k \<and> k \<le> 220 \<and> (39::real) = of_int k"
    then obtain k :: int where k: "40 \<le> k" "(39::real) = of_int k"
      by blast
    from k(2) have "of_int k = (39::real)" by (rule sym)
    then have "k = 39" by simp
    with k(1) show False by simp
  qed
  then show "maxChars_rejected (Some (Number (str ''39'')))"
    by (simp add: maxChars_rejected_iff Number_39)
  have "40 \<le> (220::int) \<and> (220::int) \<le> 220 \<and> (220::real) = of_int 220"
    by simp
  then have "\<exists>k::int. 40 \<le> k \<and> k \<le> 220 \<and> (220::real) = of_int k"
    by blast
  then show "\<not> maxChars_rejected (Some (Number (str ''220'')))"
    by (simp add: maxChars_rejected_iff Number_220)
qed

definition bio_220_form :: form_data where
  "bio_220_form = bio_form @ [(str ''maxChars'', Form_string (str ''220''))]"

theorem maxChars_validated_witness:
  "route env_with_key provider_unauthorized (Form captions_39_form) world0 =
     Inr (\<lparr>status = 400, body = Error_body (str ''Invalid input'')\<rparr>, world0)
   \<and> route env_with_key provider_unauthorized (Form bio_39_form) world0 =
     Inr (\<lparr>status = 400, body = Error_body (str ''Invalid input'')\<rparr>, world0)
   \<and> route env_empty_key provider_unauthorized (Form captions_39_form) world0 =
     Inr (fallback_response Captions, world0)
   \<and> POST_prepare env_with_key bio_220_form =
       Generate_bio (bio_messages (str ''classy'') (Some (Fin 220)) (str ''We bake bread every morning.''))"
proof -
  have key: "OPENAI_API_KEY env_with_key = Some (str ''sk-test'')" "str ''sk-test'' \<noteq> []"
    and empty: "OPENAI_API_KEY env_empty_key = Some []"
    by (simp_all add: env_with_key_def env_empty_key_def str_def)
  have ne: "str ''39'' \<noteq> []"
    by (simp add: str_def)
  note captions = maxChars_validated [OF key(1) mode_of_samples(3) sample_maxChars(1) ne]
  note bio = maxChars_validated [OF key(1) mode_of_samples(4) sample_maxChars(2) ne]
  note fallback = maxChars_validated [OF empty mode_of_samples(3) sample_maxChars(1) ne]
  have no: "\<not> (\<exists>k::int. 40 \<le> k \<and> k \<le> 220 \<and> Number (str ''39'') = Fin (of_int k))"
    using captions by blast
  have "POST_prepare env_with_key bio_220_form =
       Generate_bio (bio_messages (str ''classy'') (Some (Fin 220)) (str ''We bake bread every morning.''))"
    using Number_220 [unfolded str_def]
    by (simp add: prepare_eval env_with_key_def bio_220_form_def bio_form_def)
  with no key(2) captions bio fallback show ?thesis by blast
qed

definition provider_garbage_then_unauthorized :: provider where
  \<comment> \<open>the first call is answered with prose, every later one is refused\<close>
  "provider_garbage_then_unauthorized n messages =
     (if n = 0 then Resolved (Content_string (str ''Sure! Here are your captions.''))
      else Rejected unauthorized)"

lemma run_garbage_then_unauthorized:
  "callOpenAI provider_garbage_then_unauthorized messages world0 =
     (Inr (str ''Sure! Here are your captions.''),
      \<lparr>attempts = [messages], sleeps = [], gateway_calls = [messages]\<rparr>)"
  "callOpenAI provider_garbage_then_unauthorized retry
       \<lparr>attempts = [messages], sleeps = [], gateway_calls = [messages]\<rparr> =
     (Inl unauthorized,
      \<lparr>attempts = [messages, retry], sleeps = [], gateway_calls = [messages, retry]\<rparr>)"
proof -
  have "str ''Sure! Here are your captions.'' \<noteq> []"
    by (simp add: str_def)
  then show "callOpenAI provider_garbage_then_unauthorized messages world0 =
     (Inr (str ''Sure! Here are your captions.''),
      \<lparr>attempts = [messages], sleeps = [], gateway_calls = [messages]\<rparr>)"
    by (simp add: callOpenAI_def callOpenAI_loop.simps create_def attempt_result_def
        completion_text_def MAX_OPENAI_ATTEMPTS_def provider_garbage_then_unauthorized_def
        payload_facts world0_def)
  show "callOpenAI provider_garbage_then_unauthorized retry
       \<lparr>attempts = [messages], sleeps = [], gateway_calls = [messages]\<rparr> =
     (Inl unauthorized,
      \<lparr>attempts = [messages, retry], sleeps = [], gateway_calls = [messages, retry]\<rparr>)"
    by (simp add: gateway_eval provider_garbage_then_unauthorized_def unauthorized_def)
qed

text \<open>
  Claim C3, amended. The credentials response (status 500, \<^verbatim>\<open>Check your OpenAI
  credentials.\<close>) is returned exactly when the request passed validation with a
  configured key, so that the mode is known, and the first run of the gateway raised an
  API error of status 401 or 403; it is never returned when the form could not be read.
  Any other error raised by the first run of the gateway is answered with the fallback
  catalogue of the mode at status 200. An error raised by the run of the corrective
  re-prompt, whatever it is, an authorization failure included, is answered with the
  fallback catalogue of the mode at status 200 as well.
\<close>

theorem credentials_failure_iff:
  "(fst (POST env P request w) = credentials_failure \<longleftrightarrow>
      (\<exists>fd messages e w1. request = Form fd
         \<and> (POST_prepare env fd = Generate_captions messages
              \<or> POST_prepare env fd = Generate_bio messages)
         \<and> callOpenAI P messages w = (Inl e, w1)
         \<and> instanceof_APIError e \<and> (error_status e = Some 401 \<or> error_status e = Some 403)))
   \<and> (\<forall>fd messages e w1. request = Form fd
         \<and> (POST_prepare env fd = Generate_captions messages
              \<or> POST_prepare env fd = Generate_bio messages)
         \<and> callOpenAI P messages w = (Inl e, w1)
         \<and> \<not> (instanceof_APIError e \<and> (error_status e = Some 401 \<or> error_status e = Some 403))
       \<longrightarrow> (\<exists>mode. mode_of fd = Some mode \<and> fst (POST env P request w) = fallback_response mode))
   \<and> (\<forall>fd messages raw w1 e w2. request = Form fd
         \<and> callOpenAI P messages w = (Inr raw, w1)
         \<and> ((POST_prepare env fd = Generate_captions messages \<and> isl (parseCaptionsPayload raw)
                \<and> callOpenAI P (captions_retryMessages messages raw) w1 = (Inl e, w2))
             \<or> (POST_prepare env fd = Generate_bio messages \<and> isl (parseBioPayload raw)
                \<and> callOpenAI P (bio_retryMessages messages raw) w1 = (Inl e, w2)))
       \<longrightarrow> (\<exists>mode. mode_of fd = Some mode
              \<and> POST env P request w = (fallback_response mode, w2)))"
proof (intro conjI iffI allI impI)
  assume cred: "fst (POST env P request w) = credentials_failure"
  show "\<exists>fd messages e w1. request = Form fd
         \<and> (POST_prepare env fd = Generate_captions messages
              \<or> POST_prepare env fd = Generate_bio messages)
         \<and> callOpenAI P messages w = (Inl e, w1)
         \<and> instanceof_APIError e \<and> (error_status e = Some 401 \<or> error_status e = Some 403)"
  proof (cases request)
    case Unreadable
    with cred show ?thesis
      by (simp add: POST_def formData_def POST_catch_no_mode credentials_failure_def
          NextResponse_json_def error_bodies_differ)
  next
    case (Form fd)
    show ?thesis
    proof (cases "POST_prepare env fd")
      case (Respond r)
      with cred Form have "r = credentials_failure"
        by (simp add: POST_def formData_def)
      with prepare_Respond [OF Respond] have False
        by (auto simp: credentials_failure_distinct)
      then show ?thesis ..
    next
      case (Generate_captions messages)
      obtain res w1 where gen: "generate_captions P messages w = (res, w1)"
        by (cases "generate_captions P messages w")
      from generate_captions_cases [OF gen] consider
        (thrown) e where "res = Inl e" "callOpenAI P messages w = (Inl e, w1)"
        | (items) items where "res = Inr (NextResponse_json (Captions_body items) 200)"
        by blast
      then show ?thesis
      proof cases
        case thrown
        with cred Form Generate_captions gen have "POST_catch (Some Captions) e = credentials_failure"
          by (simp add: POST_def formData_def)
        then have "instanceof_APIError e \<and> (error_status e = Some 401 \<or> error_status e = Some 403)"
          using credentials_failure_distinct(2) [of Captions]
          by (auto simp: POST_catch_mode split: if_splits)
        with Form Generate_captions thrown(2) show ?thesis by blast
      next
        case items
        with cred Form Generate_captions gen have False
          by (simp add: POST_def formData_def credentials_failure_distinct)
        then show ?thesis ..
      qed
    next
      case (Generate_bio messages)
      obtain res w1 where gen: "generate_bio P messages w = (res, w1)"
        by (cases "generate_bio P messages w")
      from generate_bio_cases [OF gen] consider
        (thrown) e where "res = Inl e" "callOpenAI P messages w = (Inl e, w1)"
        | (items) items where "res = Inr (NextResponse_json (Bio_body items) 200)"
        by blast
      then show ?thesis
      proof cases
        case thrown
        with cred Form Generate_bio gen have "POST_catch (Some Bio) e = credentials_failure"
          by (simp add: POST_def formData_def)
        then have "instanceof_APIError e \<and> (error_status e = Some 401 \<or> error_status e = Some 403)"
          using credentials_failure_distinct(2) [of Bio]
          by (auto simp: POST_catch_mode split: if_splits)
        with Form Generate_bio thrown(2) show ?thesis by blast
      next
        case items
        with cred Form Generate_bio gen have False
          by (simp add: POST_def formData_def credentials_failure_distinct)
        then show ?thesis ..
      qed
    qed
  qed
next
  assume "\<exists>fd messages e w1. request = Form fd
         \<and> (POST_prepare env fd = Generate_captions messages
              \<or> POST_prepare env fd = Generate_bio messages)
         \<and> callOpenAI P messages w = (Inl e, w1)
         \<and> instanceof_APIError e \<and> (error_status e = Some 401 \<or> error_status e = Some 403)"
  then obtain fd messages e w1 where "request = Form fd"
    and "POST_prepare env fd = Generate_captions messages \<or> POST_prepare env fd = Generate_bio messages"
    and "callOpenAI P messages w = (Inl e, w1)"
    and "instanceof_APIError e" "error_status e = Some 401 \<or> error_status e = Some 403"
    by blast
  then show "fst (POST env P request w) = credentials_failure"
    by (auto simp: POST_def formData_def generate_captions_def generate_bio_def POST_catch_mode)
next
  fix fd messages e w1
  assume "request = Form fd
         \<and> (POST_prepare env fd = Generate_captions messages
              \<or> POST_prepare env fd = Generate_bio messages)
         \<and> callOpenAI P messages w = (Inl e, w1)
         \<and> \<not> (instanceof_APIError e \<and> (error_status e = Some 401 \<or> error_status e = Some 403))"
  then have req: "request = Form fd"
    and prep: "POST_prepare env fd = Generate_captions messages \<or> POST_prepare env fd = Generate_bio messages"
    and call: "callOpenAI P messages w = (Inl e, w1)"
    and other: "\<not> (instanceof_APIError e \<and> (error_status e = Some 401 \<or> error_status e = Some 403))"
    by blast+
  from prep show "\<exists>mode. mode_of fd = Some mode \<and> fst (POST env P request w) = fallback_response mode"
  proof
    assume c: "POST_prepare env fd = Generate_captions messages"
    with req call other have "fst (POST env P request w) = fallback_response Captions"
      by (auto simp: POST_def formData_def generate_captions_def POST_catch_mode)
    with prepare_Generate_captions [OF c] show ?thesis by blast
  next
    assume b: "POST_prepare env fd = Generate_bio messages"
    with req call other have "fst (POST env P request w) = fallback_response Bio"
      by (auto simp: POST_def formData_def generate_bio_def POST_catch_mode)
    with prepare_Generate_bio [OF b] show ?thesis by blast
  qed
next
  fix fd messages raw w1 e w2
  assume "request = Form fd
         \<and> callOpenAI P messages w = (Inr raw, w1)
         \<and> ((POST_prepare env fd = Generate_captions messages \<and> isl (parseCaptionsPayload raw)
                \<and> callOpenAI P (captions_retryMessages messages raw) w1 = (Inl e, w2))
             \<or> (POST_prepare env fd = Generate_bio messages \<and> isl (parseBioPayload raw)
                \<and> callOpenAI P (bio_retryMessages messages raw) w1 = (Inl e, w2)))"
  then have req: "request = Form fd" and first: "callOpenAI P messages w = (Inr raw, w1)"
    and again: "(POST_prepare env fd = Generate_captions messages \<and> isl (parseCaptionsPayload raw)
                \<and> callOpenAI P (captions_retryMessages messages raw) w1 = (Inl e, w2))
             \<or> (POST_prepare env fd = Generate_bio messages \<and> isl (parseBioPayload raw)
                \<and> callOpenAI P (bio_retryMessages messages raw) w1 = (Inl e, w2))"
    by blast+
  from again show "\<exists>mode. mode_of fd = Some mode \<and> POST env P request w = (fallback_response mode, w2)"
  proof
    assume c: "POST_prepare env fd = Generate_captions messages \<and> isl (parseCaptionsPayload raw)
        \<and> callOpenAI P (captions_retryMessages messages raw) w1 = (Inl e, w2)"
    then have "generate_captions P messages w = (Inr (fallback_response Captions), w2)"
      using generate_captions_reprompt [OF first, of "Inl e" w2]
      by (simp add: fallback_response_def)
    with c req have "POST env P request w = (fallback_response Captions, w2)"
      by (simp add: POST_def formData_def)
    with c prepare_Generate_captions [of env fd messages] show ?thesis by blast
  next
    assume b: "POST_prepare env fd = Generate_bio messages \<and> isl (parseBioPayload raw)
        \<and> callOpenAI P (bio_retryMessages messages raw) w1 = (Inl e, w2)"
    then have "generate_bio P messages w = (Inr (fallback_response Bio), w2)"
      using generate_bio_reprompt [OF first, of "Inl e" w2]
      by (simp add: fallback_response_def)
    with b req have "POST env P request w = (fallback_response Bio, w2)"
      by (simp add: POST_def formData_def)
    with b prepare_Generate_bio [of env fd messages] show ?thesis by blast
  qed
qed

theorem credentials_failure_iff_witness:
  "fst (POST env_with_key provider_unauthorized (Form bio_form) world0) = credentials_failure
   \<and> (\<exists>fd messages e w1. Form bio_form = Form fd
         \<and> (POST_prepare env_with_key fd = Generate_captions messages
              \<or> POST_prepare env_with_key fd = Generate_bio messages)
         \<and> callOpenAI provider_unauthorized messages world0 = (Inl e, w1)
         \<and> instanceof_APIError e \<and> (error_status e = Some 401 \<or> error_status e = Some 403))
   \<and> (\<exists>mode. mode_of bio_form = Some mode
         \<and> POST env_with_key provider_garbage_then_unauthorized (Form bio_form) world0 =
             (fallback_response mode,
              \<lparr>attempts =
                 [bio_messages (str ''classy'') None (str ''We bake bread every morning.''),
                  bio_retryMessages
                    (bio_messages (str ''classy'') None (str ''We bake bread every morning.''))
                    (str ''Sure! Here are your captions.'')],
               sleeps = [],
               gateway_calls =
                 [bio_messages (str ''classy'') None (str ''We bake bread every morning.''),
                  bio_retryMessages
                    (bio_messages (str ''classy'') None (str ''We bake bread every morning.''))
                    (str ''Sure! Here are your captions.'')]\<rparr>))"
proof -
  let ?m = "bio_messages (str ''classy'') None (str ''We bake bread every morning.'')"
  let ?raw = "str ''Sure! Here are your captions.''"
  have "\<exists>fd messages e w1. Form bio_form = Form fd
         \<and> (POST_prepare env_with_key fd = Generate_captions messages
              \<or> POST_prepare env_with_key fd = Generate_bio messages)
         \<and> callOpenAI provider_unauthorized messages world0 = (Inl e, w1)
         \<and> instanceof_APIError e \<and> (error_status e = Some 401 \<or> error_status e = Some 403)"
    using prepare_bio_form run_unauthorized unauthorized_facts by blast
  moreover have second: "Form bio_form = Form bio_form
      \<and> callOpenAI provider_garbage_then_unauthorized ?m world0 =
          (Inr ?raw, \<lparr>attempts = [?m], sleeps = [], gateway_calls = [?m]\<rparr>)
      \<and> ((POST_prepare env_with_key bio_form = Generate_captions ?m \<and> isl (parseCaptionsPayload ?raw)
             \<and> callOpenAI provider_garbage_then_unauthorized (captions_retryMessages ?m ?raw)
                 \<lparr>attempts = [?m], sleeps = [], gateway_calls = [?m]\<rparr> =
               (Inl unauthorized,
                \<lparr>attempts = [?m, bio_retryMessages ?m ?raw], sleeps = [],
                 gateway_calls = [?m, bio_retryMessages ?m ?raw]\<rparr>))
          \<or> (POST_prepare env_with_key bio_form = Generate_bio ?m \<and> isl (parseBioPayload ?raw)
             \<and> callOpenAI provider_garbage_then_unauthorized (bio_retryMessages ?m ?raw)
                 \<lparr>attempts = [?m], sleeps = [], gateway_calls = [?m]\<rparr> =
               (Inl unauthorized,
                \<lparr>attempts = [?m, bio_retryMessages ?m ?raw], sleeps = [],
                 gateway_calls = [?m, bio_retryMessages ?m ?raw]\<rparr>)))"
    by (simp add: prepare_bio_form run_garbage_then_unauthorized parse_garbage)
  ultimately show ?thesis
    using credentials_failure_iff [of env_with_key provider_unauthorized "Form bio_form" world0,
        THEN conjunct1]
      credentials_failure_iff [of env_with_key provider_garbage_then_unauthorized "Form bio_form"
        world0, THEN conjunct2, THEN conjunct2, rule_format,
        of bio_form ?m ?raw "\<lparr>attempts = [?m], sleeps = [], gateway_calls = [?m]\<rparr>" unauthorized
          "\<lparr>attempts = [?m, bio_retryMessages ?m ?raw], sleeps = [],
            gateway_calls = [?m, bio_retryMessages ?m ?raw]\<rparr>"]
    by simp
qed





lemma fallback_captions_fields:
  "\<forall>item\<in>set buildFallbackCaptions.
     item_text item \<noteq> [] \<and> hashtags item \<noteq> []
     \<and> trim (item_text item) = item_text item \<and> trim (hashtags item) = hashtags item"
  by (simp add: buildFallbackCaptions_def trim_def str_def is_white_space_def)

lemma fallback_bios_fields:
  "\<forall>item\<in>set buildFallbackBios. bio_text item \<noteq> [] \<and> trim (bio_text item) = bio_text item"
  by (simp add: buildFallbackBios_def trim_def str_def is_white_space_def)

lemma dropWhile_all: "(\<forall>c\<in>set (dropWhile P xs). P c) \<longleftrightarrow> (\<forall>c\<in>set xs. P c)"
  by (induction xs) auto

lemma trim_empty_iff: "trim t = [] \<longleftrightarrow> (\<forall>c\<in>set t. is_white_space c)"
  by (simp add: trim_def dropWhile_all)

lemma map_throwing_guarded:
  "map_throwing (\<lambda>x. if bad x then Inl (e x) else Inr (g x)) xs = Inr ys
     \<longleftrightarrow> (\<forall>x\<in>set xs. \<not> bad x) \<and> ys = map g xs"
proof (induction xs arbitrary: ys)
  case Nil
  show ?case by auto
next
  case (Cons x xs)
  show ?case
  proof (cases "map_throwing (\<lambda>x. if bad x then Inl (e x) else Inr (g x)) xs")
    case (Inl thrown)
    with Cons [of "map g xs"] show ?thesis by auto
  next
    case (Inr zs)
    with Cons [of zs] show ?thesis by auto
  qed
qed

lemma typeof_string_iff: "typeof_string v \<longleftrightarrow> (\<exists>s. v = Some (J_string s))"
  by (auto simp: typeof_string_def split: option.splits json.splits)

lemma typeof_string_truthy: "typeof_string (property x k) \<Longrightarrow> truthy (Some x)"
  by (cases x) (simp_all add: typeof_string_def property_def truthy_def)

lemma items_array:
  "truthy v \<and> isArray v \<and> length (elements v) = n \<longleftrightarrow> (\<exists>xs. v = Some (J_array xs) \<and> length xs = n)"
  by (auto simp: truthy_def isArray_def elements_def split: option.splits json.splits)

lemma property_null: "(if parsed = J_null then None else property parsed k) = property parsed k"
  by (simp add: property_def)

text \<open>
  What the parsers accept, and what they return then: the reply is a JSON text whose
  value has a property \<^verbatim>\<open>items\<close> that is an array of the right length, every entry of
  which has strings as its fields; the items are the entries in their order, each field
  trimmed. Nothing else is asked of a field: it may be empty.
\<close>

lemma parseCaptionsPayload_accepts:
  "parseCaptionsPayload raw = Inr items \<longleftrightarrow>
     (\<exists>parsed xs. JSON_parse raw = Inr parsed
        \<and> property parsed (str ''items'') = Some (J_array xs) \<and> length xs = 5
        \<and> list_all2 (\<lambda>x item. \<exists>t h.
              property x (str ''text'') = Some (J_string t)
            \<and> property x (str ''hashtags'') = Some (J_string h)
            \<and> item = \<lparr>item_text = trim t, hashtags = trim h\<rparr>) xs items)"
proof (cases "JSON_parse raw")
  case (Inl e)
  then show ?thesis
    by (simp add: parseCaptionsPayload_def)
next
  case (Inr parsed)
  let ?bad = "\<lambda>item. \<not> truthy (Some item)
      \<or> \<not> typeof_string (property item (str ''text''))
      \<or> \<not> typeof_string (property item (str ''hashtags''))"
  let ?g = "\<lambda>item. \<lparr>item_text = trim (string_of (property item (str ''text''))),
      hashtags = trim (string_of (property item (str ''hashtags'')))\<rparr>"
  let ?R = "\<lambda>x item. \<exists>t h.
              property x (str ''text'') = Some (J_string t)
            \<and> property x (str ''hashtags'') = Some (J_string h)
            \<and> item = \<lparr>item_text = trim t, hashtags = trim h\<rparr>"
  have entry: "\<not> ?bad x \<and> item = ?g x \<longleftrightarrow> ?R x item" for x item
    using typeof_string_truthy [of x "str ''text''"]
    by (auto simp: typeof_string_iff string_of_def)
  have accepted: "(\<forall>x\<in>set xs. \<not> ?bad x) \<and> items = map ?g xs \<longleftrightarrow> list_all2 ?R xs items" for xs
  proof (induction xs arbitrary: items)
    case Nil
    show ?case by auto
  next
    case (Cons x xs)
    show ?case
    proof (cases items)
      case Nil
      then show ?thesis by simp
    next
      case (Cons item rest)
      with Cons.IH [of rest] entry [of x item] show ?thesis
        by (simp del: de_Morgan_disj) blast
    qed
  qed
  have "parseCaptionsPayload raw = Inr items \<longleftrightarrow>
      (\<exists>xs. property parsed (str ''items'') = Some (J_array xs) \<and> length xs = 5
         \<and> (\<forall>x\<in>set xs. \<not> ?bad x) \<and> items = map ?g xs)"
  proof (cases "\<exists>xs. property parsed (str ''items'') = Some (J_array xs) \<and> length xs = 5")
    case True
    then obtain xs where xs: "property parsed (str ''items'') = Some (J_array xs)" "length xs = 5"
      by blast
    then have "parseCaptionsPayload raw =
        map_throwing (\<lambda>item. if ?bad item then Inl (new_Error ''Invalid caption item'') else Inr (?g item)) xs"
      using Inr by (simp add: parseCaptionsPayload_def property_null truthy_def isArray_def elements_def)
    with xs show ?thesis
      by (simp only: map_throwing_guarded) auto
  next
    case False
    then have "\<not> (truthy (property parsed (str ''items'')) \<and> isArray (property parsed (str ''items''))
        \<and> length (elements (property parsed (str ''items''))) = 5)"
      by (simp add: items_array)
    then have "isl (parseCaptionsPayload raw)"
      using Inr by (auto simp: parseCaptionsPayload_def property_null Let_def)
    with False show ?thesis by auto
  qed
  with Inr accepted show ?thesis
    by simp
qed

lemma parseBioPayload_accepts:
  "parseBioPayload raw = Inr items \<longleftrightarrow>
     (\<exists>parsed xs. JSON_parse raw = Inr parsed
        \<and> property parsed (str ''items'') = Some (J_array xs) \<and> length xs = 3
        \<and> list_all2 (\<lambda>x item. \<exists>t.
              property x (str ''text'') = Some (J_string t)
            \<and> item = \<lparr>bio_text = trim t\<rparr>) xs items)"
proof (cases "JSON_parse raw")
  case (Inl e)
  then show ?thesis
    by (simp add: parseBioPayload_def)
next
  case (Inr parsed)
  let ?bad = "\<lambda>item. \<not> truthy (Some item) \<or> \<not> typeof_string (property item (str ''text''))"
  let ?g = "\<lambda>item. \<lparr>bio_text = trim (string_of (property item (str ''text'')))\<rparr>"
  let ?R = "\<lambda>x item. \<exists>t. property x (str ''text'') = Some (J_string t) \<and> item = \<lparr>bio_text = trim t\<rparr>"
  have entry: "\<not> ?bad x \<and> item = ?g x \<longleftrightarrow> ?R x item" for x item
    using typeof_string_truthy [of x "str ''text''"]
    by (auto simp: typeof_string_iff string_of_def)
  have accepted: "(\<forall>x\<in>set xs. \<not> ?bad x) \<and> items = map ?g xs \<longleftrightarrow> list_all2 ?R xs items" for xs
  proof (induction xs arbitrary: items)
    case Nil
    show ?case by auto
  next
    case (Cons x xs)
    show ?case
    proof (cases items)
      case Nil
      then show ?thesis by simp
    next
      case (Cons item rest)
      with Cons.IH [of rest] entry [of x item] show ?thesis
        by (simp del: de_Morgan_disj) blast
    qed
  qed
  have "parseBioPayload raw = Inr items \<longleftrightarrow>
      (\<exists>xs. property parsed (str ''items'') = Some (J_array xs) \<and> length xs = 3
         \<and> (\<forall>x\<in>set xs. \<not> ?bad x) \<and> items = map ?g xs)"
  proof (cases "\<exists>xs. property parsed (str ''items'') = Some (J_array xs) \<and> length xs = 3")
    case True
    then obtain xs where xs: "property parsed (str ''items'') = Some (J_array xs)" "length xs = 3"
      by blast
    then have "parseBioPayload raw =
        map_throwing (\<lambda>item. if ?bad item then Inl (new_Error ''Invalid bio item'') else Inr (?g item)) xs"
      using Inr by (simp add: parseBioPayload_def property_null truthy_def isArray_def elements_def)
    with xs show ?thesis
      by (simp only: map_throwing_guarded) auto
  next
    case False
    then have "\<not> (truthy (property parsed (str ''items'')) \<and> isArray (property parsed (str ''items''))
        \<and> length (elements (property parsed (str ''items''))) = 3)"
      by (simp add: items_array)
    then have "isl (parseBioPayload raw)"
      using Inr by (auto simp: parseBioPayload_def property_null Let_def)
    with False show ?thesis by auto
  qed
  with Inr accepted show ?thesis
    by simp
qed

text \<open>
  Claim C5, as stated, fails for items taken from a provider reply: the parsers check that
  a field is a string, not that it is non-empty. A reply whose five items carry empty (or
  blank) strings is accepted, and the response of status 200 has empty fields.
\<close>

theorem empty_items_accepted:
  "fst (POST env_with_key provider_empty_captions (Form captions_form) world0) =
     \<lparr>status = 200, body = Captions_body
         [\<lparr>item_text = [], hashtags = []\<rparr>, \<lparr>item_text = [], hashtags = []\<rparr>,
          \<lparr>item_text = [], hashtags = []\<rparr>, \<lparr>item_text = [], hashtags = []\<rparr>,
          \<lparr>item_text = [], hashtags = []\<rparr>]\<rparr>"
  by (simp add: run_empty_captions)

text \<open>
  Claim C5, amended. Every response of status 200 carries exactly five items in captions
  mode and exactly three in bio mode, and each string field of an item is trimmed: it has
  no white space at either end (trimming it again changes nothing). The items are either
  the fallback catalogue of the mode, whose fields are all non-empty, or taken from a reply
  of the provider: that reply is a JSON text whose \<^verbatim>\<open>items\<close> property is an array, the
  items of the response are its entries in their order, and each field of an item is the
  string the entry has under that name, trimmed. Trimming gives the empty string exactly
  for a string that is empty or consists of white space only, so a field of the response
  is empty exactly when the reply gave such a string.
\<close>

theorem items_from_reply_trimmed:
  assumes "POST env P request w = (resp, w')" and "status resp = 200"
  shows "(\<exists>fd. request = Form fd \<and>
       ((mode_of fd = Some Captions
           \<and> (\<exists>items. body resp = Captions_body items \<and> length items = 5
                 \<and> (\<forall>item\<in>set items. trim (item_text item) = item_text item
                        \<and> trim (hashtags item) = hashtags item)
                 \<and> (items = buildFallbackCaptions
                     \<or> (\<exists>n sent raw parsed xs.
                            attempt_result (P n sent) = Inr raw \<and> JSON_parse raw = Inr parsed
                          \<and> property parsed (str ''items'') = Some (J_array xs)
                          \<and> list_all2 (\<lambda>x item. \<exists>t h.
                                property x (str ''text'') = Some (J_string t)
                              \<and> property x (str ''hashtags'') = Some (J_string h)
                              \<and> item = \<lparr>item_text = trim t, hashtags = trim h\<rparr>) xs items))))
        \<or> (mode_of fd = Some Bio
           \<and> (\<exists>items. body resp = Bio_body items \<and> length items = 3
                 \<and> (\<forall>item\<in>set items. trim (bio_text item) = bio_text item)
                 \<and> (items = buildFallbackBios
                     \<or> (\<exists>n sent raw parsed xs.
                            attempt_result (P n sent) = Inr raw \<and> JSON_parse raw = Inr parsed
                          \<and> property parsed (str ''items'') = Some (J_array xs)
                          \<and> list_all2 (\<lambda>x item. \<exists>t.
                                property x (str ''text'') = Some (J_string t)
                              \<and> item = \<lparr>bio_text = trim t\<rparr>) xs items))))))
     \<and> (\<forall>item\<in>set buildFallbackCaptions. item_text item \<noteq> [] \<and> hashtags item \<noteq> [])
     \<and> (\<forall>item\<in>set buildFallbackBios. bio_text item \<noteq> [])
     \<and> (\<forall>t. trim t = [] \<longleftrightarrow> (\<forall>c\<in>set t. is_white_space c))"
proof (intro conjI)
  let ?C = "\<lambda>x item. \<exists>t h.
        property x (str ''text'') = Some (J_string t)
      \<and> property x (str ''hashtags'') = Some (J_string h)
      \<and> item = \<lparr>item_text = trim t, hashtags = trim h\<rparr>"
  let ?B = "\<lambda>x item. \<exists>t. property x (str ''text'') = Some (J_string t) \<and> item = \<lparr>bio_text = trim t\<rparr>"
  from POST_ok_cases [OF assms] obtain fd where fd: "request = Form fd"
    and cases: "(mode_of fd = Some Captions
         \<and> (\<exists>items. body resp = Captions_body items
               \<and> (items = buildFallbackCaptions
                   \<or> (\<exists>raw n sent. attempt_result (P n sent) = Inr raw \<and> parseCaptionsPayload raw = Inr items))))
      \<or> (mode_of fd = Some Bio
         \<and> (\<exists>items. body resp = Bio_body items
               \<and> (items = buildFallbackBios
                   \<or> (\<exists>raw n sent. attempt_result (P n sent) = Inr raw \<and> parseBioPayload raw = Inr items))))"
    by blast
  have captions: "length items = 5
      \<and> (\<forall>item\<in>set items. trim (item_text item) = item_text item
             \<and> trim (hashtags item) = hashtags item)
      \<and> (items = buildFallbackCaptions
          \<or> (\<exists>n sent raw parsed xs.
                 attempt_result (P n sent) = Inr raw \<and> JSON_parse raw = Inr parsed
               \<and> property parsed (str ''items'') = Some (J_array xs) \<and> list_all2 ?C xs items))"
    if "items = buildFallbackCaptions
      \<or> (\<exists>raw n sent. attempt_result (P n sent) = Inr raw \<and> parseCaptionsPayload raw = Inr items)"
    for items
    using that
  proof
    assume "items = buildFallbackCaptions"
    with length_buildFallbackCaptions fallback_captions_fields show ?thesis by blast
  next
    assume "\<exists>raw n sent. attempt_result (P n sent) = Inr raw \<and> parseCaptionsPayload raw = Inr items"
    then obtain raw n sent where reply: "attempt_result (P n sent) = Inr raw"
      and parsed: "parseCaptionsPayload raw = Inr items"
      by blast
    from parsed obtain parsed xs where "JSON_parse raw = Inr parsed"
      "property parsed (str ''items'') = Some (J_array xs)" "list_all2 ?C xs items"
      unfolding parseCaptionsPayload_accepts by blast
    with reply parseCaptionsPayload_items [OF parsed] show ?thesis by blast
  qed
  have bios: "length items = 3
      \<and> (\<forall>item\<in>set items. trim (bio_text item) = bio_text item)
      \<and> (items = buildFallbackBios
          \<or> (\<exists>n sent raw parsed xs.
                 attempt_result (P n sent) = Inr raw \<and> JSON_parse raw = Inr parsed
               \<and> property parsed (str ''items'') = Some (J_array xs) \<and> list_all2 ?B xs items))"
    if "items = buildFallbackBios
      \<or> (\<exists>raw n sent. attempt_result (P n sent) = Inr raw \<and> parseBioPayload raw = Inr items)"
    for items
    using that
  proof
    assume "items = buildFallbackBios"
    with length_buildFallbackBios fallback_bios_fields show ?thesis by blast
  next
    assume "\<exists>raw n sent. attempt_result (P n sent) = Inr raw \<and> parseBioPayload raw = Inr items"
    then obtain raw n sent where reply: "attempt_result (P n sent) = Inr raw"
      and parsed: "parseBioPayload raw = Inr items"
      by blast
    from parsed obtain parsed xs where "JSON_parse raw = Inr parsed"
      "property parsed (str ''items'') = Some (J_array xs)" "list_all2 ?B xs items"
      unfolding parseBioPayload_accepts by blast
    with reply parseBioPayload_items [OF parsed] show ?thesis by blast
  qed
  from cases show "\<exists>fd. request = Form fd \<and>
       ((mode_of fd = Some Captions
           \<and> (\<exists>items. body resp = Captions_body items \<and> length items = 5
                 \<and> (\<forall>item\<in>set items. trim (item_text item) = item_text item
                        \<and> trim (hashtags item) = hashtags item)
                 \<and> (items = buildFallbackCaptions
                     \<or> (\<exists>n sent raw parsed xs.
                            attempt_result (P n sent) = Inr raw \<and> JSON_parse raw = Inr parsed
                          \<and> property parsed (str ''items'') = Some (J_array xs)
                          \<and> list_all2 ?C xs items))))
        \<or> (mode_of fd = Some Bio
           \<and> (\<exists>items. body resp = Bio_body items \<and> length items = 3
                 \<and> (\<forall>item\<in>set items. trim (bio_text item) = bio_text item)
                 \<and> (items = buildFallbackBios
                     \<or> (\<exists>n sent raw parsed xs.
                            attempt_result (P n sent) = Inr raw \<and> JSON_parse raw = Inr parsed
                          \<and> property parsed (str ''items'') = Some (J_array xs)
                          \<and> list_all2 ?B xs items)))))"
  proof
    assume "mode_of fd = Some Captions
         \<and> (\<exists>items. body resp = Captions_body items
               \<and> (items = buildFallbackCaptions
                   \<or> (\<exists>raw n sent. attempt_result (P n sent) = Inr raw \<and> parseCaptionsPayload raw = Inr items)))"
    then obtain items where mode: "mode_of fd = Some Captions"
      and items: "body resp = Captions_body items"
        "items = buildFallbackCaptions
          \<or> (\<exists>raw n sent. attempt_result (P n sent) = Inr raw \<and> parseCaptionsPayload raw = Inr items)"
      by blast
    from captions [OF items(2)] items(1) mode fd show ?thesis
      by blast
  next
    assume "mode_of fd = Some Bio
         \<and> (\<exists>items. body resp = Bio_body items
               \<and> (items = buildFallbackBios
                   \<or> (\<exists>raw n sent. attempt_result (P n sent) = Inr raw \<and> parseBioPayload raw = Inr items)))"
    then obtain items where mode: "mode_of fd = Some Bio"
      and items: "body resp = Bio_body items"
        "items = buildFallbackBios
          \<or> (\<exists>raw n sent. attempt_result (P n sent) = Inr raw \<and> parseBioPayload raw = Inr items)"
      by blast
    from bios [OF items(2)] items(1) mode fd show ?thesis
      by blast
  qed
next
  from fallback_captions_fields
  show "\<forall>item\<in>set buildFallbackCaptions. item_text item \<noteq> [] \<and> hashtags item \<noteq> []"
    by blast
  from fallback_bios_fields show "\<forall>item\<in>set buildFallbackBios. bio_text item \<noteq> []"
    by blast
  show "\<forall>t. trim t = [] \<longleftrightarrow> (\<forall>c\<in>set t. is_white_space c)"
    by (simp add: trim_empty_iff)
qed

lemma empty_items_not_fallback:
  "[\<lparr>item_text = [], hashtags = []\<rparr>, \<lparr>item_text = [], hashtags = []\<rparr>,
    \<lparr>item_text = [], hashtags = []\<rparr>, \<lparr>item_text = [], hashtags = []\<rparr>,
    \<lparr>item_text = [], hashtags = []\<rparr>] \<noteq> buildFallbackCaptions"
  by (simp add: buildFallbackCaptions_def str_def)

theorem items_from_reply_trimmed_witness:
  "POST env_with_key provider_empty_captions (Form captions_form) world0 =
     (\<lparr>status = 200, body = Captions_body
         [\<lparr>item_text = [], hashtags = []\<rparr>, \<lparr>item_text = [], hashtags = []\<rparr>,
          \<lparr>item_text = [], hashtags = []\<rparr>, \<lparr>item_text = [], hashtags = []\<rparr>,
          \<lparr>item_text = [], hashtags = []\<rparr>]\<rparr>,
      \<lparr>attempts = [captions_messages (str ''funny'') None (str ''launch day'') png], sleeps = [],
       gateway_calls = [captions_messages (str ''funny'') None (str ''launch day'') png]\<rparr>)
   \<and> (\<exists>n sent raw parsed xs.
          attempt_result (provider_empty_captions n sent) = Inr raw \<and> JSON_parse raw = Inr parsed
        \<and> property parsed (str ''items'') = Some (J_array xs)
        \<and> list_all2 (\<lambda>x item. \<exists>t h.
              property x (str ''text'') = Some (J_string t)
            \<and> property x (str ''hashtags'') = Some (J_string h)
            \<and> item = \<lparr>item_text = trim t, hashtags = trim h\<rparr>) xs
            [\<lparr>item_text = [], hashtags = []\<rparr>, \<lparr>item_text = [], hashtags = []\<rparr>,
             \<lparr>item_text = [], hashtags = []\<rparr>, \<lparr>item_text = [], hashtags = []\<rparr>,
             \<lparr>item_text = [], hashtags = []\<rparr>])"
  using items_from_reply_trimmed [OF run_empty_captions, THEN conjunct1]
    run_empty_captions empty_items_not_fallback mode_of_samples(1)
  by auto

end
